theory Spec2Isabelle
  imports Complex_Main
begin

section \<open>Scene elements and their reactive properties\<close>

text \<open>
  The editor is TypeScript. A JavaScript number is modelled as a real: the code below only
  adds, subtracts, halves, divides, compares and takes absolute values, and the properties
  proved are about that arithmetic, not about rounding, NaN or infinities.

  Objects are shared by reference (the selection, the scene registry, a gesture and an
  undoable action all point to the same element), so every element lives in a heap
  addressed by references and each operation passes the whole engine state.
\<close>

type_synonym ref = nat

text \<open>Bounds of types.ts: \<^verbatim>\<open>{ x, y, width, height }\<close>.\<close>

record Bounds =
  b_x :: real
  b_y :: real
  b_width :: real
  b_height :: real

text \<open>
  ShapeElement keeps a shape type and a dictionary of parameters; the private constructor
  is reached through the four builders, each of which stores exactly the keys of its
  shape type, so the pair is a tagged union:
  \<open>Line lx1 ly1 lx2 ly2\<close>, \<open>Circle radius\<close>, \<open>Rectangle w h\<close>,
  \<open>Arc radius startAngle endAngle\<close>.
\<close>

datatype Shape =
    Line real real real real
  | Circle real
  | Rectangle real real
  | Arc real real real

text \<open>
  The three element classes, as far as their width and height go. ImageElement reads and
  writes the width and height of its sprite (\<^verbatim>\<open>sprite.width\<close>, \<^verbatim>\<open>sprite.height\<close>); pixi.js is
  not part of the repository, and the sprite is taken to hold the two numbers it is given.
  TextElement reads the width and height of its text object, or the diameter of its arc
  path when it has one, and cannot be given either: \<open>TextBody w h\<close> is a text that reads
  width \<open>w\<close> and height \<open>h\<close>. ShapeElement derives both from its parameters.
\<close>

datatype Body =
    TextBody real real
  | ImageBody real real
  | ShapeBody Shape

text \<open>
  BaseElement: the private fields \<^verbatim>\<open>_x, _y, _rotation, _zIndex, _visible, _interactable,
  _opacity\<close>, the readonly id, and \<^verbatim>\<open>engine: EngineRef | null\<close> (there is one engine, so the
  field is whether the element is attached to it).
\<close>

record Element =
  el_id :: string
  el_x :: real
  el_y :: real
  el_rotation :: real
  el_zIndex :: real
  el_visible :: bool
  el_interactable :: bool
  el_opacity :: real
  el_engine :: bool
  el_body :: Body

text \<open>The values and property names that \<^verbatim>\<open>emitChange(property, oldValue, newValue)\<close> is called with.\<close>

datatype Val = NumV real | BoolV bool

datatype Prop =
    Prop_x | Prop_y | Prop_rotation | Prop_zIndex | Prop_visible
  | Prop_interactable | Prop_opacity | Prop_width | Prop_height

text \<open>
  An UndoableAction of type \<^verbatim>\<open>'property-change'\<close> is a pair of closures over
  \<^verbatim>\<open>element, property, oldValue, newValue\<close>; the action is represented by what the closures
  capture, and \<open>action_undo\<close> / \<open>action_redo\<close> below are their bodies.
\<close>

datatype Action = PropertyChange ref Prop Val Val

text \<open>The events of EngineEventMap that the modelled code emits.\<close>

datatype Event =
    ElementAdded ref
  | ElementRemoved ref
  | ElementChanged ref Prop Val Val
  | ElementZChanged ref real real
  | SelectionChanged "ref list"
  | SelectionCleared
  | DragStart ref real real
  | DragMove "ref list" real real
  | DragEnd "ref list"
  | ResizeStart ref
  | ResizeEnd ref
  | RotateStart ref
  | RotateEnd ref
  | ActionPerformed Action

text \<open>HandlePosition of TransformHandle.ts, with the string each value is.\<close>

datatype HandlePosition =
    TopLeft | TopCenter | TopRight | MiddleRight | BottomRight
  | BottomCenter | BottomLeft | MiddleLeft | Rotate

datatype TransformMode = ModeNone | ModeMove | ModeResize | ModeRotate

text \<open>The per-element snapshot a gesture takes: \<^verbatim>\<open>{ x, y, width, height, rotation }\<close>.\<close>

record StartProps =
  sp_x :: real
  sp_y :: real
  sp_width :: real
  sp_height :: real
  sp_rotation :: real

text \<open>DragState of TransformController; \<open>elementStartProps\<close> is keyed by element id.\<close>

record DragState =
  mode :: TransformMode
  startX :: real
  startY :: real
  handlePosition :: "HandlePosition option"
  elementStartProps :: "string \<Rightarrow> StartProps option"

text \<open>
  SerializedElement of types.ts. The type is a string once it has gone through JSON. Of the
  open-ended extra keys only the shape's type and parameters are kept
  (\<open>se_shape\<close>); text and image content is consumed by pixi.js alone.
\<close>

record SerializedElement =
  se_type :: string
  se_id :: string
  se_x :: real
  se_y :: real
  se_width :: real
  se_height :: real
  se_rotation :: real
  se_zIndex :: real
  se_visible :: bool
  se_interactable :: bool
  se_opacity :: real
  se_shape :: "Shape option"

text \<open>The classes SerializationManager registers in its ElementRegistry.\<close>

datatype ElementConstructor = TextElementClass | ImageElementClass | ShapeElementClass

text \<open>A FederatedPointerEvent, as far as the controllers read it.\<close>

record PointerEvent =
  globalX :: real
  globalY :: real
  shiftKey :: bool

text \<open>
  The engine and everything hanging off it, flattened into one state:
  \<^item> \<open>heap\<close>: the element objects; \<open>nextRef\<close>: the next unused reference;
  \<^item> \<open>uidSupply\<close>, \<open>uidNext\<close>: \<^verbatim>\<open>generateUid\<close> of utils/uid.ts, which is not among the
    sources: the ids it returns are a parameter, handed out in order;
  \<^item> \<open>displaySize\<close>: the width and height a text or sprite freshly built from serialized
    data reads, which pixi.js determines (a parameter, for the same reason);
  \<^item> \<open>suppressActions\<close>: WatchfaceEngine.\_suppressActions;
  \<^item> \<open>emitted\<close>: every event passed to EventBus.emit, oldest first;
  \<^item> \<open>undoRedoPlugin\<close>, \<open>undoStack\<close>, \<open>redoStack\<close>, \<open>maxHistory\<close>: UndoRedoPlugin
    (whether it is registered, and its fields; the top of a stack is the end of the list);
  \<^item> \<open>elements\<close>: ElementManager.elements, a Map from id to element in insertion order;
  \<^item> \<open>selected\<close>, \<open>clipboard\<close>, \<open>serializationManager\<close>: SelectionManager's Set of
    selected elements (in insertion order), its clipboard (the JSON text of each entry is
    represented by the data it encodes) and its serializer, null until set, represented
    by the serializer's registry;
  \<^item> \<open>dragState\<close>, \<open>activeElements\<close>, \<open>contentRoot\<close>: TransformController
    (\<open>contentRoot\<close> is the root container's \<^verbatim>\<open>toLocal\<close>, when one is set).
  Rendering (the pixi.js containers, the selection box, the marquee graphics) is left out.
\<close>

record Engine =
  heap :: "ref \<Rightarrow> Element"
  nextRef :: ref
  uidSupply :: "nat \<Rightarrow> string"
  uidNext :: nat
  displaySize :: "SerializedElement \<Rightarrow> real \<times> real"
  suppressActions :: bool
  emitted :: "Event list"
  undoRedoPlugin :: bool
  undoStack :: "Action list"
  redoStack :: "Action list"
  maxHistory :: nat
  elements :: "(string \<times> ref) list"
  selected :: "ref list"
  clipboard :: "SerializedElement list"
  serializationManager :: "(string \<Rightarrow> ElementConstructor option) option"
  dragState :: "DragState option"
  activeElements :: "ref list"
  contentRoot :: "(real \<times> real \<Rightarrow> real \<times> real) option"

subsection \<open>The event bus and the undo/redo plugin's listener\<close>

text \<open>
  \<^verbatim>\<open>Set.prototype.add\<close> and \<^verbatim>\<open>Set.prototype.delete\<close> on a Set kept as the list of its members
  in insertion order.
\<close>

definition set_add :: "'a \<Rightarrow> 'a list \<Rightarrow> 'a list" where
  "set_add a xs = (if a \<in> set xs then xs else xs @ [a])"

definition set_delete :: "'a \<Rightarrow> 'a list \<Rightarrow> 'a list" where
  "set_delete a xs = filter (\<lambda>b. b \<noteq> a) xs"

text \<open>
  UndoRedoPlugin.init's listener on \<^verbatim>\<open>action:performed\<close>: push, drop the oldest entry when
  the stack exceeds maxHistory, empty the redo stack.
\<close>

definition onActionPerformed :: "Action \<Rightarrow> Engine \<Rightarrow> Engine" where
  "onActionPerformed a st =
     (let pushed = undoStack st @ [a];
          kept = (if length pushed > maxHistory st then tl pushed else pushed)
      in st\<lparr>undoStack := kept, redoStack := []\<rparr>)"

text \<open>
  EventBus.emit, with the listeners the modelled classes install: the undo/redo plugin on
  \<^verbatim>\<open>action:performed\<close> and SelectionManager on \<^verbatim>\<open>element:removed\<close> (its listener on
  \<^verbatim>\<open>element:changed\<close> only redraws).
\<close>

definition emit :: "Event \<Rightarrow> Engine \<Rightarrow> Engine" where
  "emit ev st =
     (let st1 = st\<lparr>emitted := emitted st @ [ev]\<rparr>
      in case ev of
           ActionPerformed a \<Rightarrow> (if undoRedoPlugin st1 then onActionPerformed a st1 else st1)
         | ElementRemoved r \<Rightarrow> st1\<lparr>selected := set_delete r (selected st1)\<rparr>
         | _ \<Rightarrow> st1)"

subsection \<open>BaseElement.emitChange and the property setters\<close>

definition emitChange :: "ref \<Rightarrow> Prop \<Rightarrow> Val \<Rightarrow> Val \<Rightarrow> Engine \<Rightarrow> Engine" where
  "emitChange r property oldValue newValue st =
     (if \<not> el_engine (heap st r) then st
      else let st1 = emit (ElementChanged r property oldValue newValue) st
           in if suppressActions st1 then st1
              else emit (ActionPerformed (PropertyChange r property oldValue newValue)) st1)"

definition update_el :: "ref \<Rightarrow> (Element \<Rightarrow> Element) \<Rightarrow> Engine \<Rightarrow> Engine" where
  "update_el r f st = st\<lparr>heap := (heap st)(r := f (heap st r))\<rparr>"

definition set_x :: "ref \<Rightarrow> real \<Rightarrow> Engine \<Rightarrow> Engine" where
  "set_x r v st =
     (let old = el_x (heap st r)
      in if old = v then st
         else emitChange r Prop_x (NumV old) (NumV v) (update_el r (\<lambda>e. e\<lparr>el_x := v\<rparr>) st))"

definition set_y :: "ref \<Rightarrow> real \<Rightarrow> Engine \<Rightarrow> Engine" where
  "set_y r v st =
     (let old = el_y (heap st r)
      in if old = v then st
         else emitChange r Prop_y (NumV old) (NumV v) (update_el r (\<lambda>e. e\<lparr>el_y := v\<rparr>) st))"

definition set_rotation :: "ref \<Rightarrow> real \<Rightarrow> Engine \<Rightarrow> Engine" where
  "set_rotation r v st =
     (let old = el_rotation (heap st r)
      in if old = v then st
         else emitChange r Prop_rotation (NumV old) (NumV v)
                (update_el r (\<lambda>e. e\<lparr>el_rotation := v\<rparr>) st))"

definition set_zIndex :: "ref \<Rightarrow> real \<Rightarrow> Engine \<Rightarrow> Engine" where
  "set_zIndex r v st =
     (let old = el_zIndex (heap st r)
      in if old = v then st
         else let st1 = emitChange r Prop_zIndex (NumV old) (NumV v)
                          (update_el r (\<lambda>e. e\<lparr>el_zIndex := v\<rparr>) st)
              in if el_engine (heap st1 r) then emit (ElementZChanged r old v) st1 else st1)"

definition set_visible :: "ref \<Rightarrow> bool \<Rightarrow> Engine \<Rightarrow> Engine" where
  "set_visible r v st =
     (let old = el_visible (heap st r)
      in if old = v then st
         else emitChange r Prop_visible (BoolV old) (BoolV v)
                (update_el r (\<lambda>e. e\<lparr>el_visible := v\<rparr>) st))"

definition set_interactable :: "ref \<Rightarrow> bool \<Rightarrow> Engine \<Rightarrow> Engine" where
  "set_interactable r v st =
     (let old = el_interactable (heap st r)
      in if old = v then st
         else emitChange r Prop_interactable (BoolV old) (BoolV v)
                (update_el r (\<lambda>e. e\<lparr>el_interactable := v\<rparr>) st))"

definition set_opacity :: "ref \<Rightarrow> real \<Rightarrow> Engine \<Rightarrow> Engine" where
  "set_opacity r v st =
     (let old = el_opacity (heap st r)
      in if old = v then st
         else emitChange r Prop_opacity (NumV old) (NumV v)
                (update_el r (\<lambda>e. e\<lparr>el_opacity := v\<rparr>) st))"

text \<open>
  ShapeElement.getLocalBounds. \<^verbatim>\<open>Math.abs(lx2 - lx1) || 1\<close> is 1 when the difference is 0.
\<close>

definition or_one :: "real \<Rightarrow> real" where
  "or_one v = (if v = 0 then 1 else v)"

fun getLocalBounds :: "Shape \<Rightarrow> Bounds" where
  "getLocalBounds (Circle r) = \<lparr>b_x = 0, b_y = 0, b_width = r * 2, b_height = r * 2\<rparr>"
| "getLocalBounds (Rectangle w h) = \<lparr>b_x = 0, b_y = 0, b_width = w, b_height = h\<rparr>"
| "getLocalBounds (Line lx1 ly1 lx2 ly2) =
     \<lparr>b_x = 0, b_y = 0, b_width = or_one \<bar>lx2 - lx1\<bar>, b_height = or_one \<bar>ly2 - ly1\<bar>\<rparr>"
| "getLocalBounds (Arc r startAngle endAngle) =
     \<lparr>b_x = 0, b_y = 0, b_width = r * 2, b_height = r * 2\<rparr>"

text \<open>The width and height getters of the three classes.\<close>

definition get_width :: "Element \<Rightarrow> real" where
  "get_width e =
     (case el_body e of
        TextBody w h \<Rightarrow> w
      | ImageBody w h \<Rightarrow> w
      | ShapeBody s \<Rightarrow> b_width (getLocalBounds s))"

definition get_height :: "Element \<Rightarrow> real" where
  "get_height e =
     (case el_body e of
        TextBody w h \<Rightarrow> h
      | ImageBody w h \<Rightarrow> h
      | ShapeBody s \<Rightarrow> b_height (getLocalBounds s))"

text \<open>The switch of ShapeElement's width and height setters over the shape type.\<close>

fun shape_set_width :: "real \<Rightarrow> Shape \<Rightarrow> Shape" where
  "shape_set_width v (Rectangle w h) = Rectangle v h"
| "shape_set_width v (Circle r) = Circle (v / 2)"
| "shape_set_width v (Arc r startAngle endAngle) = Arc (v / 2) startAngle endAngle"
| "shape_set_width v (Line lx1 ly1 lx2 ly2) = Line lx1 ly1 v ly2"

fun shape_set_height :: "real \<Rightarrow> Shape \<Rightarrow> Shape" where
  "shape_set_height v (Rectangle w h) = Rectangle w v"
| "shape_set_height v (Circle r) = Circle (v / 2)"
| "shape_set_height v (Arc r startAngle endAngle) = Arc (v / 2) startAngle endAngle"
| "shape_set_height v (Line lx1 ly1 lx2 ly2) = Line lx1 ly1 lx2 v"

text \<open>
  The width and height setters. TextElement's are empty (\<^verbatim>\<open>width is determined by
  content/arc; not directly settable\<close>); ImageElement's return when the value is the old
  one; ShapeElement's also return when the old value is 0.
\<close>

definition set_width :: "ref \<Rightarrow> real \<Rightarrow> Engine \<Rightarrow> Engine" where
  "set_width r v st =
     (let old = get_width (heap st r)
      in case el_body (heap st r) of
           TextBody w h \<Rightarrow> st
         | ImageBody w h \<Rightarrow>
             if old = v then st
             else emitChange r Prop_width (NumV old) (NumV v)
                    (update_el r (\<lambda>e. e\<lparr>el_body := ImageBody v h\<rparr>) st)
         | ShapeBody s \<Rightarrow>
             if old = v \<or> old = 0 then st
             else emitChange r Prop_width (NumV old) (NumV v)
                    (update_el r (\<lambda>e. e\<lparr>el_body := ShapeBody (shape_set_width v s)\<rparr>) st))"

definition set_height :: "ref \<Rightarrow> real \<Rightarrow> Engine \<Rightarrow> Engine" where
  "set_height r v st =
     (let old = get_height (heap st r)
      in case el_body (heap st r) of
           TextBody w h \<Rightarrow> st
         | ImageBody w h \<Rightarrow>
             if old = v then st
             else emitChange r Prop_height (NumV old) (NumV v)
                    (update_el r (\<lambda>e. e\<lparr>el_body := ImageBody w v\<rparr>) st)
         | ShapeBody s \<Rightarrow>
             if old = v \<or> old = 0 then st
             else emitChange r Prop_height (NumV old) (NumV v)
                    (update_el r (\<lambda>e. e\<lparr>el_body := ShapeBody (shape_set_height v s)\<rparr>) st))"

text \<open>
  \<^verbatim>\<open>(element as any)[property] = value\<close>: the assignment the closures of an action make,
  which runs the setter of that name. A recorded value has the type of its property; the
  last equation (a value of the other type) is never reached and leaves the state alone.
\<close>

fun assign :: "ref \<Rightarrow> Prop \<Rightarrow> Val \<Rightarrow> Engine \<Rightarrow> Engine" where
  "assign r Prop_x (NumV v) st = set_x r v st"
| "assign r Prop_y (NumV v) st = set_y r v st"
| "assign r Prop_rotation (NumV v) st = set_rotation r v st"
| "assign r Prop_zIndex (NumV v) st = set_zIndex r v st"
| "assign r Prop_visible (BoolV v) st = set_visible r v st"
| "assign r Prop_interactable (BoolV v) st = set_interactable r v st"
| "assign r Prop_opacity (NumV v) st = set_opacity r v st"
| "assign r Prop_width (NumV v) st = set_width r v st"
| "assign r Prop_height (NumV v) st = set_height r v st"
| "assign r p v st = st"






text \<open>The static builder \<^verbatim>\<open>ShapeElement.line(x1, y1, x2, y2)\<close>, as the shape it stores.\<close>

definition line_shape :: "real \<Rightarrow> real \<Rightarrow> real \<Rightarrow> real \<Rightarrow> Shape" where
  "line_shape x1 y1 x2 y2 =
     (let minX = min x1 x2; minY = min y1 y2
      in Line (x1 - minX) (y1 - minY) (x2 - minX) (y2 - minY))"

subsection \<open>ElementManager\<close>

text \<open>\<^verbatim>\<open>Map.prototype.has\<close> on the registry of scene elements.\<close>

definition has_id :: "string \<Rightarrow> (string \<times> ref) list \<Rightarrow> bool" where
  "has_id i m = (i \<in> set (map fst m))"

text \<open>
  ElementManager.add: refuse an id the scene already holds, otherwise register the
  element, attach it to the engine and announce it.
\<close>

definition add :: "ref \<Rightarrow> Engine \<Rightarrow> Engine" where
  "add r st =
     (if has_id (el_id (heap st r)) (elements st) then st
      else emit (ElementAdded r)
             (update_el r (\<lambda>e. e\<lparr>el_engine := True\<rparr>)
                (st\<lparr>elements := elements st @ [(el_id (heap st r), r)]\<rparr>)))"

text \<open>ElementManager.getAll: the registered elements in insertion order.\<close>

definition getAll :: "Engine \<Rightarrow> ref list" where
  "getAll st = map snd (elements st)"

subsection \<open>Building elements and engines\<close>

text \<open>
  The BaseElement constructor's field initialisers, for an element with the given id and
  body; \<open>create\<close> places a new object in the heap.
\<close>

definition newElement :: "string \<Rightarrow> Body \<Rightarrow> Element" where
  "newElement uid body =
     \<lparr>el_id = uid, el_x = 0, el_y = 0, el_rotation = 0, el_zIndex = 0, el_visible = True,
      el_interactable = True, el_opacity = 1, el_engine = False, el_body = body\<rparr>"

definition create :: "Element \<Rightarrow> Engine \<Rightarrow> Engine" where
  "create e st = st\<lparr>heap := (heap st)(nextRef st := e), nextRef := Suc (nextRef st)\<rparr>"

text \<open>
  A freshly constructed engine with the undo/redo plugin registered under its default
  history length, and no serializer, gesture or content root yet. Its id supply hands out
  \<open>u\<close>, \<open>uu\<close>, \<open>uuu\<close>, ...; a new text or sprite takes the size its data records.
\<close>

definition newEngine :: Engine where
  "newEngine =
     \<lparr>heap = (\<lambda>r. newElement [] (ShapeBody (Rectangle 0 0))), nextRef = 0,
      uidSupply = (\<lambda>n. replicate (Suc n) (CHR ''u'')), uidNext = 0,
      displaySize = (\<lambda>d. (se_width d, se_height d)),
      suppressActions = False, emitted = [],
      undoRedoPlugin = True, undoStack = [], redoStack = [], maxHistory = 100,
      elements = [], selected = [], clipboard = [], serializationManager = None,
      dragState = None, activeElements = [], contentRoot = None\<rparr>"

text \<open>
  \<open>sceneOf es\<close>: a new engine to which the elements \<open>es\<close> have been added in order, so that
  the i-th of them is the object at reference i.
\<close>

definition sceneOf :: "Element list \<Rightarrow> Engine" where
  "sceneOf es = foldl (\<lambda>st e. add (nextRef st) (create e st)) newEngine es"

text \<open>The builders \<^verbatim>\<open>ShapeElement.rectangle\<close>, \<^verbatim>\<open>ShapeElement.circle\<close> and \<^verbatim>\<open>ShapeElement.line\<close>.\<close>

definition rectangle :: "string \<Rightarrow> real \<Rightarrow> real \<Rightarrow> real \<Rightarrow> real \<Rightarrow> Element" where
  "rectangle uid x y w h = (newElement uid (ShapeBody (Rectangle w h)))\<lparr>el_x := x, el_y := y\<rparr>"

definition circle :: "string \<Rightarrow> real \<Rightarrow> real \<Rightarrow> real \<Rightarrow> Element" where
  "circle uid x y radius = (newElement uid (ShapeBody (Circle radius)))\<lparr>el_x := x, el_y := y\<rparr>"

definition line :: "string \<Rightarrow> real \<Rightarrow> real \<Rightarrow> real \<Rightarrow> real \<Rightarrow> Element" where
  "line uid x1 y1 x2 y2 =
     (newElement uid (ShapeBody (line_shape x1 y1 x2 y2)))\<lparr>el_x := min x1 x2, el_y := min y1 y2\<rparr>"

text \<open>\<^verbatim>\<open>new TextElement(text, x, y)\<close> under a given id, for a text that reads \<open>w\<close> by \<open>h\<close>.\<close>

definition textElement :: "string \<Rightarrow> real \<Rightarrow> real \<Rightarrow> real \<Rightarrow> real \<Rightarrow> Element" where
  "textElement uid x y w h = (newElement uid (TextBody w h))\<lparr>el_x := x, el_y := y\<rparr>"

subsection \<open>Vocabulary of the statements about setters\<close>











subsection \<open>TransformController\<close>

text \<open>The string a HandlePosition is, and \<^verbatim>\<open>String.prototype.includes\<close>.\<close>

fun handleName :: "HandlePosition \<Rightarrow> string" where
  "handleName TopLeft = ''top-left''"
| "handleName TopCenter = ''top-center''"
| "handleName TopRight = ''top-right''"
| "handleName MiddleRight = ''middle-right''"
| "handleName BottomRight = ''bottom-right''"
| "handleName BottomCenter = ''bottom-center''"
| "handleName BottomLeft = ''bottom-left''"
| "handleName MiddleLeft = ''middle-left''"
| "handleName Rotate = ''rotate''"

fun startsWith :: "string \<Rightarrow> string \<Rightarrow> bool" where
  "startsWith s [] = True"
| "startsWith [] (c # cs) = False"
| "startsWith (d # ds) (c # cs) = (d = c \<and> startsWith ds cs)"

fun str_includes :: "string \<Rightarrow> string \<Rightarrow> bool" where
  "str_includes [] sub = (sub = [])"
| "str_includes (d # ds) sub = (startsWith (d # ds) sub \<or> str_includes ds sub)"

definition handleIncludes :: "HandlePosition \<Rightarrow> string \<Rightarrow> bool" where
  "handleIncludes handle sub = str_includes (handleName handle) sub"

text \<open>\<^verbatim>\<open>Math.atan2\<close> and angleBetweenPoints of utils/math.ts.\<close>

definition atan2 :: "real \<Rightarrow> real \<Rightarrow> real" where
  "atan2 y x =
     (if 0 < x then arctan (y / x)
      else if x < 0 \<and> 0 \<le> y then arctan (y / x) + pi
      else if x < 0 then arctan (y / x) - pi
      else if 0 < y then pi / 2
      else if y < 0 then - (pi / 2)
      else 0)"

definition angleBetweenPoints :: "real \<Rightarrow> real \<Rightarrow> real \<Rightarrow> real \<Rightarrow> real" where
  "angleBetweenPoints cx cy px py = atan2 (py - cy) (px - cx)"

definition toWorld :: "PointerEvent \<Rightarrow> Engine \<Rightarrow> real \<times> real" where
  "toWorld event st =
     (case contentRoot st of
        Some toLocal \<Rightarrow> toLocal (globalX event, globalY event)
      | None \<Rightarrow> (globalX event, globalY event))"

text \<open>
  The loop shared by startMove, startResize and startRotate: a Map from element id to the
  element's current \<^verbatim>\<open>{ x, y, width, height, rotation }\<close>.
\<close>

definition snapshot :: "Element \<Rightarrow> StartProps" where
  "snapshot e =
     \<lparr>sp_x = el_x e, sp_y = el_y e, sp_width = get_width e, sp_height = get_height e,
      sp_rotation = el_rotation e\<rparr>"

definition takeStartProps :: "ref list \<Rightarrow> Engine \<Rightarrow> string \<Rightarrow> StartProps option" where
  "takeStartProps els st =
     foldl (\<lambda>m r. m(el_id (heap st r) \<mapsto> snapshot (heap st r))) Map.empty els"

definition startMove :: "ref list \<Rightarrow> PointerEvent \<Rightarrow> Engine \<Rightarrow> Engine" where
  "startMove els event st =
     (let world = toWorld event st;
          st1 = st\<lparr>activeElements := els,
                   dragState := Some \<lparr>mode = ModeMove, startX = fst world, startY = snd world,
                                      handlePosition = None,
                                      elementStartProps = takeStartProps els st\<rparr>\<rparr>
      in case els of
           [] \<Rightarrow> st1
         | el # _ \<Rightarrow> emit (DragStart el (fst world) (snd world)) st1)"

definition startResize :: "ref list \<Rightarrow> HandlePosition \<Rightarrow> PointerEvent \<Rightarrow> Engine \<Rightarrow> Engine" where
  "startResize els handle event st =
     (let world = toWorld event st;
          st1 = st\<lparr>activeElements := els,
                   dragState := Some \<lparr>mode = ModeResize, startX = fst world, startY = snd world,
                                      handlePosition = Some handle,
                                      elementStartProps = takeStartProps els st\<rparr>\<rparr>
      in case els of
           [] \<Rightarrow> st1
         | el # _ \<Rightarrow> emit (ResizeStart el) st1)"

definition startRotate :: "ref list \<Rightarrow> PointerEvent \<Rightarrow> Engine \<Rightarrow> Engine" where
  "startRotate els event st =
     (let world = toWorld event st;
          st1 = st\<lparr>activeElements := els,
                   dragState := Some \<lparr>mode = ModeRotate, startX = fst world, startY = snd world,
                                      handlePosition = None,
                                      elementStartProps = takeStartProps els st\<rparr>\<rparr>
      in case els of
           [] \<Rightarrow> st1
         | el # _ \<Rightarrow> emit (RotateStart el) st1)"

text \<open>handleMove: the loop body for one element, then the function.\<close>

definition moveElement :: "DragState \<Rightarrow> real \<Rightarrow> real \<Rightarrow> Engine \<Rightarrow> ref \<Rightarrow> Engine" where
  "moveElement ds dx dy st r =
     (case elementStartProps ds (el_id (heap st r)) of
        None \<Rightarrow> st
      | Some start \<Rightarrow> set_y r (sp_y start + dy) (set_x r (sp_x start + dx) st))"

definition handleMove :: "PointerEvent \<Rightarrow> Engine \<Rightarrow> Engine" where
  "handleMove event st =
     (case dragState st of
        None \<Rightarrow> st
      | Some ds \<Rightarrow>
          let world = toWorld event st;
              dx = fst world - startX ds;
              dy = snd world - startY ds;
              st1 = foldl (moveElement ds dx dy) st (activeElements st)
          in emit (DragMove (activeElements st1) dx dy) st1)"

text \<open>
  handleResize. The four values \<^verbatim>\<open>newX, newY, newW, newH\<close> that the loop body computes
  from an element's snapshot, in the order of the source: the per-side decomposition of
  the delta, the aspect-ratio constraint, the floor of 5.
\<close>

record NewProps =
  newX :: real
  newY :: real
  newW :: real
  newH :: real

definition resizeSides :: "HandlePosition \<Rightarrow> real \<Rightarrow> real \<Rightarrow> StartProps \<Rightarrow> NewProps" where
  "resizeSides handle dx dy start =
     (let n = \<lparr>newX = sp_x start, newY = sp_y start, newW = sp_width start, newH = sp_height start\<rparr>;
          n = (if handleIncludes handle ''left''
               then n\<lparr>newX := sp_x start + dx, newW := sp_width start - dx\<rparr> else n);
          n = (if handleIncludes handle ''right''
               then n\<lparr>newW := sp_width start + dx\<rparr> else n);
          n = (if handleIncludes handle ''top''
               then n\<lparr>newY := sp_y start + dy, newH := sp_height start - dy\<rparr> else n);
          n = (if handleIncludes handle ''bottom''
               then n\<lparr>newH := sp_height start + dy\<rparr> else n)
      in n)"

definition resizeConstrain :: "HandlePosition \<Rightarrow> StartProps \<Rightarrow> NewProps \<Rightarrow> NewProps" where
  "resizeConstrain handle start n =
     (let aspect = (if sp_height start = 0 then 1 else sp_width start / sp_height start);
          isCorner = ((handleIncludes handle ''left'' \<or> handleIncludes handle ''right'')
                      \<and> (handleIncludes handle ''top'' \<or> handleIncludes handle ''bottom''))
      in if isCorner then
           (let absDx = \<bar>newW n - sp_width start\<bar>;
                absDy = \<bar>newH n - sp_height start\<bar>
            in if absDx / aspect \<ge> absDy then
                 (let n1 = n\<lparr>newH := newW n / aspect\<rparr>
                  in if handleIncludes handle ''top''
                     then n1\<lparr>newY := sp_y start + sp_height start - newH n1\<rparr> else n1)
               else
                 (let n1 = n\<lparr>newW := newH n * aspect\<rparr>
                  in if handleIncludes handle ''left''
                     then n1\<lparr>newX := sp_x start + sp_width start - newW n1\<rparr> else n1))
         else if handle = MiddleLeft \<or> handle = MiddleRight then
           (let centerY = sp_y start + sp_height start / 2;
                n1 = n\<lparr>newH := newW n / aspect\<rparr>
            in n1\<lparr>newY := centerY - newH n1 / 2\<rparr>)
         else
           (let centerX = sp_x start + sp_width start / 2;
                n1 = n\<lparr>newW := newH n * aspect\<rparr>
            in n1\<lparr>newX := centerX - newW n1 / 2\<rparr>))"

definition resizeFloor :: "HandlePosition \<Rightarrow> StartProps \<Rightarrow> NewProps \<Rightarrow> NewProps" where
  "resizeFloor handle start n =
     (let n = (if newW n < 5
               then (let n1 = n\<lparr>newW := 5\<rparr>
                     in if handleIncludes handle ''left''
                        then n1\<lparr>newX := sp_x start + sp_width start - 5\<rparr> else n1)
               else n);
          n = (if newH n < 5
               then (let n1 = n\<lparr>newH := 5\<rparr>
                     in if handleIncludes handle ''top''
                        then n1\<lparr>newY := sp_y start + sp_height start - 5\<rparr> else n1)
               else n)
      in n)"

definition resizeUnfloored ::
  "HandlePosition \<Rightarrow> bool \<Rightarrow> real \<Rightarrow> real \<Rightarrow> StartProps \<Rightarrow> NewProps" where
  "resizeUnfloored handle constrain dx dy start =
     (let n = resizeSides handle dx dy start
      in if constrain \<and> sp_width start > 0 \<and> sp_height start > 0
         then resizeConstrain handle start n else n)"

definition resizeProps :: "HandlePosition \<Rightarrow> bool \<Rightarrow> real \<Rightarrow> real \<Rightarrow> StartProps \<Rightarrow> NewProps" where
  "resizeProps handle constrain dx dy start =
     resizeFloor handle start (resizeUnfloored handle constrain dx dy start)"

definition resizeElement ::
  "DragState \<Rightarrow> HandlePosition \<Rightarrow> bool \<Rightarrow> real \<Rightarrow> real \<Rightarrow> Engine \<Rightarrow> ref \<Rightarrow> Engine" where
  "resizeElement ds handle constrain dx dy st r =
     (case elementStartProps ds (el_id (heap st r)) of
        None \<Rightarrow> st
      | Some start \<Rightarrow>
          let n = resizeProps handle constrain dx dy start
          in set_height r (newH n) (set_width r (newW n) (set_y r (newY n) (set_x r (newX n) st))))"

definition handleResize :: "PointerEvent \<Rightarrow> Engine \<Rightarrow> Engine" where
  "handleResize event st =
     (case dragState st of
        None \<Rightarrow> st
      | Some ds \<Rightarrow>
          (case handlePosition ds of
             None \<Rightarrow> st
           | Some handle \<Rightarrow>
               let world = toWorld event st;
                   dx = fst world - startX ds;
                   dy = snd world - startY ds;
                   constrain = shiftKey event
               in foldl (resizeElement ds handle constrain dx dy) st (activeElements st)))"

text \<open>handleRotate: the pivot is the element's current centre.\<close>

definition rotateElement :: "DragState \<Rightarrow> real \<times> real \<Rightarrow> Engine \<Rightarrow> ref \<Rightarrow> Engine" where
  "rotateElement ds world st r =
     (case elementStartProps ds (el_id (heap st r)) of
        None \<Rightarrow> st
      | Some start \<Rightarrow>
          let cx = el_x (heap st r) + get_width (heap st r) / 2;
              cy = el_y (heap st r) + get_height (heap st r) / 2;
              angle = angleBetweenPoints cx cy (fst world) (snd world);
              startAngle = angleBetweenPoints cx cy (startX ds) (startY ds)
          in set_rotation r (sp_rotation start + (angle - startAngle)) st)"

definition handleRotate :: "PointerEvent \<Rightarrow> Engine \<Rightarrow> Engine" where
  "handleRotate event st =
     (case dragState st of
        None \<Rightarrow> st
      | Some ds \<Rightarrow> foldl (rotateElement ds (toWorld event st)) st (activeElements st))"

definition onPointerMove :: "PointerEvent \<Rightarrow> Engine \<Rightarrow> Engine" where
  "onPointerMove event st =
     (case dragState st of
        None \<Rightarrow> st
      | Some ds \<Rightarrow>
          (case mode ds of
             ModeMove \<Rightarrow> handleMove event st
           | ModeResize \<Rightarrow> handleResize event st
           | ModeRotate \<Rightarrow> handleRotate event st
           | ModeNone \<Rightarrow> st))"

definition onPointerUp :: "PointerEvent \<Rightarrow> Engine \<Rightarrow> Engine" where
  "onPointerUp event st =
     (case dragState st of
        None \<Rightarrow> st
      | Some ds \<Rightarrow>
          let st1 = (case activeElements st of
                       [] \<Rightarrow> st
                     | el # _ \<Rightarrow>
                         (case mode ds of
                            ModeMove \<Rightarrow> emit (DragEnd (activeElements st)) st
                          | ModeResize \<Rightarrow> emit (ResizeEnd el) st
                          | ModeRotate \<Rightarrow> emit (RotateEnd el) st
                          | ModeNone \<Rightarrow> st))
          in st1\<lparr>dragState := None, activeElements := []\<rparr>)"

text \<open>cancel: the loop body for one element, then the function.\<close>

definition restoreElement :: "DragState \<Rightarrow> Engine \<Rightarrow> ref \<Rightarrow> Engine" where
  "restoreElement ds st r =
     (case elementStartProps ds (el_id (heap st r)) of
        None \<Rightarrow> st
      | Some start \<Rightarrow> set_y r (sp_y start) (set_x r (sp_x start) st))"

definition cancel :: "Engine \<Rightarrow> Engine" where
  "cancel st =
     (case dragState st of
        None \<Rightarrow> st
      | Some ds \<Rightarrow>
          (foldl (restoreElement ds) st (activeElements st))
            \<lparr>dragState := None, activeElements := []\<rparr>)"

definition pointerAt :: "real \<Rightarrow> real \<Rightarrow> PointerEvent" where
  "pointerAt px py = \<lparr>globalX = px, globalY = py, shiftKey = False\<rparr>"

subsection \<open>Vocabulary of the statements about gestures\<close>

text \<open>The events with which onPointerUp commits a gesture.\<close>

fun is_commit :: "Event \<Rightarrow> bool" where
  "is_commit (DragEnd els) = True"
| "is_commit (ResizeEnd el) = True"
| "is_commit (RotateEnd el) = True"
| "is_commit ev = False"

text \<open>An element put back at the position its snapshot records, if it has one.\<close>

definition repositioned :: "DragState \<Rightarrow> Element \<Rightarrow> Element" where
  "repositioned ds e =
     (case elementStartProps ds (el_id e) of
        None \<Rightarrow> e
      | Some start \<Rightarrow> e\<lparr>el_x := sp_x start, el_y := sp_y start\<rparr>)"

text \<open>
  A gesture in progress: one of startMove, startResize and startRotate, then any number of
  pointer moves.
\<close>

definition gesture :: "(Engine \<Rightarrow> Engine) \<Rightarrow> PointerEvent list \<Rightarrow> Engine \<Rightarrow> Engine" where
  "gesture start events st = foldl (\<lambda>s event. onPointerMove event s) (start st) events"

text \<open>
  Two states of one gesture: the same gesture state and active elements, no commit event
  between them, and every element under the id it had.
\<close>

definition same_gesture :: "Engine \<Rightarrow> Engine \<Rightarrow> bool" where
  "same_gesture st0 st =
     (dragState st = dragState st0 \<and> activeElements st = activeElements st0
      \<and> filter is_commit (emitted st) = filter is_commit (emitted st0)
      \<and> (\<forall>r. el_id (heap st r) = el_id (heap st0 r)))"

text \<open>The heap differs from an earlier one at most in the positions of the given elements.\<close>

definition shifted :: "ref list \<Rightarrow> (ref \<Rightarrow> Element) \<Rightarrow> (ref \<Rightarrow> Element) \<Rightarrow> bool" where
  "shifted els h0 h =
     (\<forall>r. if r \<in> set els then h r = (h0 r)\<lparr>el_x := el_x (h r), el_y := el_y (h r)\<rparr>
          else h r = h0 r)"


text \<open>
  An element whose width and height setters store what they are given: an image, and a
  rectangle of non-zero width and height.
\<close>

fun stores_size :: "Body \<Rightarrow> bool" where
  "stores_size (TextBody w h) = False"
| "stores_size (ImageBody w h) = True"
| "stores_size (ShapeBody (Rectangle w h)) = (w \<noteq> 0 \<and> h \<noteq> 0)"
| "stores_size (ShapeBody s) = False"

text \<open>What an element reads as its position and size.\<close>

definition geometry :: "Element \<Rightarrow> NewProps" where
  "geometry e = \<lparr>newX = el_x e, newY = el_y e, newW = get_width e, newH = get_height e\<rparr>"

subsection \<open>SelectionManager: the marquee's overlap test and the selection set\<close>

text \<open>SelectionManager.boundsOverlap.\<close>

definition boundsOverlap :: "Bounds \<Rightarrow> Bounds \<Rightarrow> bool" where
  "boundsOverlap a b =
     (\<not> (b_x a + b_width a < b_x b
         \<or> b_x b + b_width b < b_x a
         \<or> b_y a + b_height a < b_y b
         \<or> b_y b + b_height b < b_y a))"

text \<open>MarqueeSelect.getRect: the rectangle spanned by the marquee's two corners.\<close>

definition getRect :: "real \<Rightarrow> real \<Rightarrow> real \<Rightarrow> real \<Rightarrow> Bounds" where
  "getRect sx sy ex ey =
     \<lparr>b_x = min sx ex, b_y = min sy ey, b_width = \<bar>ex - sx\<bar>, b_height = \<bar>ey - sy\<bar>\<rparr>"

text \<open>A point of the rectangle, its border included.\<close>

definition covers :: "Bounds \<Rightarrow> real \<times> real \<Rightarrow> bool" where
  "covers a p =
     (b_x a \<le> fst p \<and> fst p \<le> b_x a + b_width a \<and> b_y a \<le> snd p \<and> snd p \<le> b_y a + b_height a)"

text \<open>
  The selection set. \<^verbatim>\<open>updateSelectionVisuals\<close>, which every one of these calls, only
  redraws the selection box and is left out.
\<close>

definition getSelected :: "Engine \<Rightarrow> ref list" where
  "getSelected st = selected st"

definition isSelected :: "ref \<Rightarrow> Engine \<Rightarrow> bool" where
  "isSelected r st = (r \<in> set (selected st))"

definition addToSelection :: "ref \<Rightarrow> Engine \<Rightarrow> Engine" where
  "addToSelection r st =
     (let st1 = st\<lparr>selected := set_add r (selected st)\<rparr>
      in emit (SelectionChanged (getSelected st1)) st1)"

definition deselect :: "ref \<Rightarrow> Engine \<Rightarrow> Engine" where
  "deselect r st =
     (let st1 = st\<lparr>selected := set_delete r (selected st)\<rparr>
      in emit (SelectionChanged (getSelected st1)) st1)"

definition clearSelection :: "Engine \<Rightarrow> Engine" where
  "clearSelection st =
     (if selected st = [] then st
      else emit SelectionCleared (st\<lparr>selected := []\<rparr>))"

definition select :: "ref \<Rightarrow> Engine \<Rightarrow> Engine" where
  "select r st = addToSelection r (clearSelection st)"

subsection \<open>ZOrderManager\<close>

text \<open>
  getSortedByZ: \<^verbatim>\<open>getAll().sort((a, b) => a.zIndex - b.zIndex)\<close>, a stable ascending sort
  by stacking key.
\<close>

definition getSortedByZ :: "Engine \<Rightarrow> ref list" where
  "getSortedByZ st = sort_key (\<lambda>r. el_zIndex (heap st r)) (getAll st)"

text \<open>\<^verbatim>\<open>Array.prototype.indexOf\<close>, with \<open>None\<close> for -1.\<close>

fun indexOf :: "'a list \<Rightarrow> 'a \<Rightarrow> nat option" where
  "indexOf [] a = None"
| "indexOf (x # xs) a = (if x = a then Some 0 else map_option Suc (indexOf xs a))"

definition moveForward :: "ref \<Rightarrow> Engine \<Rightarrow> Engine" where
  "moveForward element st =
     (let all = getSortedByZ st
      in case indexOf all element of
           None \<Rightarrow> st
         | Some idx \<Rightarrow>
             if idx + 1 \<ge> length all then st
             else let nextEl = all ! (idx + 1);
                      nextZ = el_zIndex (heap st nextEl);
                      st1 = set_zIndex nextEl (el_zIndex (heap st element)) st
                  in set_zIndex element nextZ st1)"

definition moveBackward :: "ref \<Rightarrow> Engine \<Rightarrow> Engine" where
  "moveBackward element st =
     (let all = getSortedByZ st
      in case indexOf all element of
           None \<Rightarrow> st
         | Some idx \<Rightarrow>
             if idx = 0 then st
             else let prevEl = all ! (idx - 1);
                      prevZ = el_zIndex (heap st prevEl);
                      st1 = set_zIndex prevEl (el_zIndex (heap st element)) st
                  in set_zIndex element prevZ st1)"

text \<open>The stacking key of an element.\<close>

definition zOf :: "Engine \<Rightarrow> ref \<Rightarrow> real" where
  "zOf st r = el_zIndex (heap st r)"

text \<open>The heap in which two elements have exchanged their stacking keys.\<close>

definition swapped :: "Engine \<Rightarrow> ref \<Rightarrow> ref \<Rightarrow> ref \<Rightarrow> Element" where
  "swapped st p q =
     (heap st)(p := (heap st p)\<lparr>el_zIndex := zOf st q\<rparr>,
               q := (heap st q)\<lparr>el_zIndex := zOf st p\<rparr>)"

subsection \<open>Serialization, copy and paste\<close>

text \<open>
  \<^verbatim>\<open>generateUid\<close> (utils/uid.ts is not among the sources): the next id of the supply.
\<close>

definition generateUid :: "Engine \<Rightarrow> string \<times> Engine" where
  "generateUid st = (uidSupply st (uidNext st), st\<lparr>uidNext := Suc (uidNext st)\<rparr>)"

text \<open>
  \<^verbatim>\<open>new\<close> of an element class without an id argument: the BaseElement constructor draws an
  id, and the new object gets the next reference.
\<close>

definition construct :: "Body \<Rightarrow> Engine \<Rightarrow> ref \<times> Engine" where
  "construct body st =
     (let (uid, st1) = generateUid st
      in (nextRef st1, create (newElement uid body) st1))"

text \<open>
  The static \<^verbatim>\<open>fromJSON\<close> of the three classes. TextElement and ImageElement assign x and y
  in their constructors, ShapeElement after construction; all three then assign rotation,
  zIndex, visible, interactable and opacity. TextElement also takes over the arc path of
  the data, which an element that is not attached announces to nobody; the size the new
  text reads (its measured size, or the arc's diameter) is \<open>displaySize\<close> of the data.
\<close>

definition TextElement_fromJSON :: "SerializedElement \<Rightarrow> Engine \<Rightarrow> ref \<times> Engine" where
  "TextElement_fromJSON data st =
     (let (w, h) = displaySize st data;
          (el, st1) = construct (TextBody w h) st;
          st2 = set_y el (se_y data) (set_x el (se_x data) st1);
          st3 = set_zIndex el (se_zIndex data) (set_rotation el (se_rotation data) st2);
          st4 = set_interactable el (se_interactable data) (set_visible el (se_visible data) st3)
      in (el, set_opacity el (se_opacity data) st4))"

definition ImageElement_fromJSON :: "SerializedElement \<Rightarrow> Engine \<Rightarrow> ref \<times> Engine" where
  "ImageElement_fromJSON data st =
     (let (w, h) = displaySize st data;
          (el, st1) = construct (ImageBody w h) st;
          st2 = set_y el (se_y data) (set_x el (se_x data) st1);
          st3 = set_zIndex el (se_zIndex data) (set_rotation el (se_rotation data) st2);
          st4 = set_interactable el (se_interactable data) (set_visible el (se_visible data) st3)
      in (el, set_opacity el (se_opacity data) st4))"

definition ShapeElement_fromJSON :: "Shape \<Rightarrow> SerializedElement \<Rightarrow> Engine \<Rightarrow> ref \<times> Engine" where
  "ShapeElement_fromJSON shape data st =
     (let (el, st1) = construct (ShapeBody shape) st;
          st2 = set_y el (se_y data) (set_x el (se_x data) st1);
          st3 = set_zIndex el (se_zIndex data) (set_rotation el (se_rotation data) st2);
          st4 = set_interactable el (se_interactable data) (set_visible el (se_visible data) st3)
      in (el, set_opacity el (se_opacity data) st4))"


text \<open>
  SerializationManager.deserializeElement: null for a type the registry does not know,
  otherwise the class's \<^verbatim>\<open>fromJSON\<close>. Data without a shape type and parameters makes the
  ShapeElement constructor throw (its first redraw reads the bounds of no shape), after
  the base constructor has drawn an id.
\<close>

datatype Deserialized = Null | Threw | Built ref

definition deserializeElement ::
  "(string \<Rightarrow> ElementConstructor option) \<Rightarrow> SerializedElement \<Rightarrow> Engine \<Rightarrow> Deserialized \<times> Engine" where
  "deserializeElement registry data st =
     (case registry (se_type data) of
        None \<Rightarrow> (Null, st)
      | Some TextElementClass \<Rightarrow>
          (let (el, st1) = TextElement_fromJSON data st in (Built el, st1))
      | Some ImageElementClass \<Rightarrow>
          (let (el, st1) = ImageElement_fromJSON data st in (Built el, st1))
      | Some ShapeElementClass \<Rightarrow>
          (case se_shape data of
             None \<Rightarrow> (Threw, snd (generateUid st))
           | Some shape \<Rightarrow>
               (let (el, st1) = ShapeElement_fromJSON shape data st in (Built el, st1))))"

text \<open>The registry a SerializationManager is constructed with.\<close>

definition standardRegistry :: "string \<Rightarrow> ElementConstructor option" where
  "standardRegistry =
     [''text'' \<mapsto> TextElementClass, ''image'' \<mapsto> ImageElementClass, ''shape'' \<mapsto> ShapeElementClass]"

text \<open>\<^verbatim>\<open>toJSON\<close> of the three classes, and copySelected.\<close>

definition toJSON :: "Element \<Rightarrow> SerializedElement" where
  "toJSON e =
     \<lparr>se_type = (case el_body e of TextBody w h \<Rightarrow> ''text'' | ImageBody w h \<Rightarrow> ''image''
                  | ShapeBody s \<Rightarrow> ''shape''),
      se_id = el_id e, se_x = el_x e, se_y = el_y e,
      se_width = get_width e, se_height = get_height e,
      se_rotation = el_rotation e, se_zIndex = el_zIndex e, se_visible = el_visible e,
      se_interactable = el_interactable e, se_opacity = el_opacity e,
      se_shape = (case el_body e of ShapeBody s \<Rightarrow> Some s | _ \<Rightarrow> None)\<rparr>"

definition copySelected :: "Engine \<Rightarrow> Engine" where
  "copySelected st = st\<lparr>clipboard := map (\<lambda>el. toJSON (heap st el)) (getSelected st)\<rparr>"

text \<open>
  pasteClipboard. A call either returns or is left by the exception of a constructor;
  both carry the state reached. \<open>pasteEntry\<close> is one round of the loop.
\<close>

datatype Outcome = Returned Engine | Thrown Engine

definition pasteEntry ::
  "(string \<Rightarrow> ElementConstructor option) \<Rightarrow> SerializedElement \<Rightarrow> Engine \<Rightarrow> Outcome" where
  "pasteEntry registry json st =
     (let (uid, st1) = generateUid st;
          data = json\<lparr>se_id := uid, se_x := se_x json + 20, se_y := se_y json + 20\<rparr>
      in case deserializeElement registry data st1 of
           (Null, st2) \<Rightarrow> Returned st2
         | (Threw, st2) \<Rightarrow> Thrown st2
         | (Built el, st2) \<Rightarrow> Returned (addToSelection el (add el st2)))"

fun pasteLoop ::
  "(string \<Rightarrow> ElementConstructor option) \<Rightarrow> SerializedElement list \<Rightarrow> Engine \<Rightarrow> Outcome" where
  "pasteLoop registry [] st = Returned st"
| "pasteLoop registry (json # rest) st =
     (case pasteEntry registry json st of
        Returned st1 \<Rightarrow> pasteLoop registry rest st1
      | Thrown st1 \<Rightarrow> Thrown st1)"

definition pasteClipboard :: "Engine \<Rightarrow> Outcome" where
  "pasteClipboard st =
     (if clipboard st = [] \<or> serializationManager st = None then Returned st
      else pasteLoop (the (serializationManager st)) (clipboard st) (clearSelection st))"

text \<open>Vocabulary of the statements about paste.\<close>

definition registered :: "(string \<Rightarrow> ElementConstructor option) \<Rightarrow> SerializedElement \<Rightarrow> bool" where
  "registered registry d = (registry (se_type d) \<noteq> None)"

text \<open>An entry that makes no constructor throw: one handed to ShapeElement carries a shape.\<close>

definition constructible :: "(string \<Rightarrow> ElementConstructor option) \<Rightarrow> SerializedElement \<Rightarrow> bool" where
  "constructible registry d =
     (if registry (se_type d) = Some ShapeElementClass then se_shape d \<noteq> None else True)"






text \<open>The scenes the closed statements below are evaluated on.\<close>

definition rectScene :: Engine where
  "rectScene = sceneOf [rectangle ''a'' 10 10 100 50]"


definition zeroScene :: Engine where
  "zeroScene = sceneOf [rectangle ''a'' 0 0 0 20]"


definition circleScene :: Engine where
  "circleScene = sceneOf [circle ''c'' 0 0 50]"

text \<open>A text at (10, 10) that reads 100 by 50, and one at the origin that reads 3 by 20.\<close>

definition textScene :: Engine where
  "textScene = sceneOf [textElement ''t'' 10 10 100 50]"

definition tinyText :: Engine where
  "tinyText = sceneOf [textElement ''t'' 0 0 3 20]"

text \<open>A line drawn from (110, 10) to (10, 60): its first end is the right one.\<close>

definition lineScene :: Engine where
  "lineScene = sceneOf [line ''l'' 110 10 10 60]"

text \<open>A resize gesture on the first element of a scene, begun with the pointer at the origin.\<close>

definition resizing :: "HandlePosition \<Rightarrow> Engine \<Rightarrow> Engine" where
  "resizing handle st = startResize [0] handle (pointerAt 0 0) st"

definition rectStart :: StartProps where
  "rectStart = \<lparr>sp_x = 10, sp_y = 10, sp_width = 100, sp_height = 50, sp_rotation = 0\<rparr>"

text \<open>Four squares of side 10: at the origin, touching it on the right, one unit further, and crossing it.\<close>

definition unitSquare :: Bounds where
  "unitSquare = \<lparr>b_x = 0, b_y = 0, b_width = 10, b_height = 10\<rparr>"

definition besideSquare :: Bounds where
  "besideSquare = \<lparr>b_x = 10, b_y = 0, b_width = 10, b_height = 10\<rparr>"

definition farSquare :: Bounds where
  "farSquare = \<lparr>b_x = 11, b_y = 0, b_width = 10, b_height = 10\<rparr>"

definition crossSquare :: Bounds where
  "crossSquare = \<lparr>b_x = 5, b_y = 5, b_width = 10, b_height = 10\<rparr>"

text \<open>Two rectangles in a scene, the first of them selected.\<close>

definition pickedScene :: Engine where
  "pickedScene = addToSelection 0 (sceneOf [rectangle ''a'' 10 10 100 50, rectangle ''b'' 0 0 5 5])"

text \<open>
  Three rectangles stacked at keys 0, 1, 2, and three of which the upper two share key 1.
\<close>

definition stack3 :: Engine where
  "stack3 = sceneOf [(rectangle ''a'' 0 0 10 10)\<lparr>el_zIndex := 0\<rparr>,
                     (rectangle ''b'' 0 0 10 10)\<lparr>el_zIndex := 1\<rparr>,
                     (rectangle ''c'' 0 0 10 10)\<lparr>el_zIndex := 2\<rparr>]"


definition tieScene :: Engine where
  "tieScene = sceneOf [(rectangle ''a'' 0 0 10 10)\<lparr>el_zIndex := 0\<rparr>,
                       (rectangle ''b'' 0 0 10 10)\<lparr>el_zIndex := 1\<rparr>,
                       (rectangle ''c'' 0 0 10 10)\<lparr>el_zIndex := 1\<rparr>]"




definition copiedScene :: Engine where
  "copiedScene = copySelected pickedScene"

definition servedScene :: Engine where
  "servedScene = pickedScene\<lparr>serializationManager := Some standardRegistry\<rparr>"

section \<open>Properties of the setters and of undo and redo\<close>

lemmas setter_defs = set_x_def set_y_def set_rotation_def set_zIndex_def set_visible_def
  set_interactable_def set_opacity_def set_width_def set_height_def get_width_def get_height_def







lemma assign_frame:
  "r' \<noteq> r \<Longrightarrow> heap (assign r p v st) r' = heap st r'"
  by (cases p; cases v; cases "el_body (heap st r)";
      simp add: setter_defs emitChange_def emit_def update_el_def onActionPerformed_def Let_def)


























lemmas scene_defs = sceneOf_def create_def add_def has_id_def emit_def update_el_def
  newEngine_def newElement_def rectangle_def circle_def line_def line_shape_def

lemma rectScene_0:
  "heap rectScene 0 = (rectangle ''a'' 10 10 100 50)\<lparr>el_engine := True\<rparr>"
  "suppressActions rectScene = False" "undoRedoPlugin rectScene" "maxHistory rectScene = 100"
  "emitted rectScene = [ElementAdded 0]"
  by (simp_all add: rectScene_def scene_defs)









section \<open>Properties of the transform gestures\<close>

lemma handleIncludes_left [simp]:
  "handleIncludes h ''left'' = (h \<in> {TopLeft, MiddleLeft, BottomLeft})"
  by (cases h) (simp_all add: handleIncludes_def)

lemma handleIncludes_right [simp]:
  "handleIncludes h ''right'' = (h \<in> {TopRight, MiddleRight, BottomRight})"
  by (cases h) (simp_all add: handleIncludes_def)

lemma handleIncludes_top [simp]:
  "handleIncludes h ''top'' = (h \<in> {TopLeft, TopCenter, TopRight})"
  by (cases h) (simp_all add: handleIncludes_def)

lemma handleIncludes_bottom [simp]:
  "handleIncludes h ''bottom'' = (h \<in> {BottomLeft, BottomCenter, BottomRight})"
  by (cases h) (simp_all add: handleIncludes_def)

lemma resizeFloor_min:
  "5 \<le> newW (resizeFloor h s n)" "5 \<le> newH (resizeFloor h s n)"
  by (simp_all add: resizeFloor_def Let_def)

lemma resizeProps_min:
  "5 \<le> newW (resizeProps h c dx dy s)" "5 \<le> newH (resizeProps h c dx dy s)"
  by (simp_all add: resizeProps_def resizeFloor_min)

lemma resizeFloor_anchor_x:
  "newW n < 5 \<Longrightarrow> h \<in> {TopLeft, MiddleLeft, BottomLeft} \<Longrightarrow>
     newW (resizeFloor h s n) = 5 \<and> newX (resizeFloor h s n) + newW (resizeFloor h s n) = sp_x s + sp_width s"
  by (auto simp add: resizeFloor_def Let_def)

lemma resizeFloor_anchor_y:
  "newH n < 5 \<Longrightarrow> h \<in> {TopLeft, TopCenter, TopRight} \<Longrightarrow>
     newH (resizeFloor h s n) = 5 \<and> newY (resizeFloor h s n) + newH (resizeFloor h s n) = sp_y s + sp_height s"
  by (auto simp add: resizeFloor_def Let_def)

lemma resize_unconstrained_x:
  "(h \<in> {TopLeft, MiddleLeft, BottomLeft} \<longrightarrow>
      newW (resizeProps h False dx dy s) = max 5 (sp_width s - dx)
    \<and> newX (resizeProps h False dx dy s) + newW (resizeProps h False dx dy s) = sp_x s + sp_width s)
 \<and> (h \<in> {TopRight, MiddleRight, BottomRight} \<longrightarrow>
      newW (resizeProps h False dx dy s) = max 5 (sp_width s + dx)
    \<and> newX (resizeProps h False dx dy s) = sp_x s)
 \<and> (h \<in> {TopCenter, BottomCenter, Rotate} \<longrightarrow>
      newW (resizeProps h False dx dy s) = max 5 (sp_width s)
    \<and> newX (resizeProps h False dx dy s) = sp_x s)"
  by (cases h; simp add: resizeProps_def resizeUnfloored_def resizeSides_def resizeFloor_def Let_def)

lemma resize_unconstrained_y:
  "(h \<in> {TopLeft, TopCenter, TopRight} \<longrightarrow>
      newH (resizeProps h False dx dy s) = max 5 (sp_height s - dy)
    \<and> newY (resizeProps h False dx dy s) + newH (resizeProps h False dx dy s) = sp_y s + sp_height s)
 \<and> (h \<in> {BottomLeft, BottomCenter, BottomRight} \<longrightarrow>
      newH (resizeProps h False dx dy s) = max 5 (sp_height s + dy)
    \<and> newY (resizeProps h False dx dy s) = sp_y s)
 \<and> (h \<in> {MiddleLeft, MiddleRight, Rotate} \<longrightarrow>
      newH (resizeProps h False dx dy s) = max 5 (sp_height s)
    \<and> newY (resizeProps h False dx dy s) = sp_y s)"
  by (cases h; simp add: resizeProps_def resizeUnfloored_def resizeSides_def resizeFloor_def Let_def)


lemma geometry_sel:
  "el_x e = newX (geometry e)" "el_y e = newY (geometry e)"
  "get_width e = newW (geometry e)" "get_height e = newH (geometry e)"
  by (simp_all add: geometry_def)

lemma set_x_heap: "heap (set_x r v st) = (heap st)(r := (heap st r)\<lparr>el_x := v\<rparr>)"
  by (auto simp add: set_x_def emitChange_def emit_def update_el_def onActionPerformed_def Let_def)

lemma set_y_heap: "heap (set_y r v st) = (heap st)(r := (heap st r)\<lparr>el_y := v\<rparr>)"
  by (auto simp add: set_y_def emitChange_def emit_def update_el_def onActionPerformed_def Let_def)

lemma set_width_frame: "r' \<noteq> r \<Longrightarrow> heap (set_width r v st) r' = heap st r'"
  using assign_frame [of r' r Prop_width "NumV v" st] by simp

lemma set_height_frame: "r' \<noteq> r \<Longrightarrow> heap (set_height r v st) r' = heap st r'"
  using assign_frame [of r' r Prop_height "NumV v" st] by simp

lemma set_width_stores:
  assumes "stores_size (el_body (heap st r))" "v \<noteq> 0"
  shows "geometry (heap (set_width r v st) r) = (geometry (heap st r))\<lparr>newW := v\<rparr>
       \<and> el_id (heap (set_width r v st) r) = el_id (heap st r)
       \<and> stores_size (el_body (heap (set_width r v st) r))"
proof (cases "el_body (heap st r)")
  case (ShapeBody sh)
  with assms show ?thesis
    by (cases sh; simp add: geometry_def get_width_def get_height_def set_width_def emitChange_def emit_def update_el_def
          onActionPerformed_def Let_def)
qed (use assms in \<open>simp_all add: geometry_def get_width_def get_height_def set_width_def emitChange_def emit_def
       update_el_def onActionPerformed_def Let_def\<close>)

lemma set_height_stores:
  assumes "stores_size (el_body (heap st r))" "v \<noteq> 0"
  shows "geometry (heap (set_height r v st) r) = (geometry (heap st r))\<lparr>newH := v\<rparr>
       \<and> el_id (heap (set_height r v st) r) = el_id (heap st r)
       \<and> stores_size (el_body (heap (set_height r v st) r))"
proof (cases "el_body (heap st r)")
  case (ShapeBody sh)
  with assms show ?thesis
    by (cases sh; simp add: geometry_def get_width_def get_height_def set_height_def emitChange_def emit_def update_el_def
          onActionPerformed_def Let_def)
qed (use assms in \<open>simp_all add: geometry_def get_width_def get_height_def set_height_def emitChange_def emit_def
       update_el_def onActionPerformed_def Let_def\<close>)

lemma resizeElement_frame:
  "r' \<noteq> r \<Longrightarrow> heap (resizeElement ds h c dx dy st r) r' = heap st r'"
  by (simp add: resizeElement_def Let_def set_width_frame set_height_frame set_x_heap set_y_heap
      split: option.splits)

lemma resizeElement_stores:
  assumes st: "stores_size (el_body (heap st r))"
    and sn: "elementStartProps ds (el_id (heap st r)) = Some s"
  shows "geometry (heap (resizeElement ds h c dx dy st r) r) = resizeProps h c dx dy s
       \<and> el_id (heap (resizeElement ds h c dx dy st r) r) = el_id (heap st r)
       \<and> stores_size (el_body (heap (resizeElement ds h c dx dy st r) r))"
proof -
  let ?n = "resizeProps h c dx dy s"
  let ?s2 = "set_y r (newY ?n) (set_x r (newX ?n) st)"
  let ?s3 = "set_width r (newW ?n) ?s2"
  have nz: "newW ?n \<noteq> 0" "newH ?n \<noteq> 0"
    using resizeProps_min [of h c dx dy s] by auto
  have h2: "heap ?s2 r = (heap st r)\<lparr>el_x := newX ?n, el_y := newY ?n\<rparr>"
    by (simp add: set_x_heap set_y_heap)
  then have st2: "stores_size (el_body (heap ?s2 r))" using st by simp
  have g2: "geometry (heap ?s2 r) = (geometry (heap st r))\<lparr>newX := newX ?n, newY := newY ?n\<rparr>"
    using h2 by (simp add: geometry_def get_width_def get_height_def)
  note w = set_width_stores [OF st2 nz(1)]
  then have st3: "stores_size (el_body (heap ?s3 r))" by blast
  note hh = set_height_stores [OF st3 nz(2)]
  have "resizeElement ds h c dx dy st r = set_height r (newH ?n) ?s3"
    using sn by (simp add: resizeElement_def Let_def)
  moreover have "el_id (heap ?s2 r) = el_id (heap st r)" using h2 by simp
  ultimately show ?thesis
    using w hh g2 by (simp add: geometry_def)
qed

lemma resizeElement_keeps:
  assumes "geometry (heap st r) = resizeProps h c dx dy s
         \<and> el_id (heap st r) = i \<and> stores_size (el_body (heap st r))"
    and "elementStartProps ds i = Some s"
  shows "geometry (heap (resizeElement ds h c dx dy st r') r) = resizeProps h c dx dy s
       \<and> el_id (heap (resizeElement ds h c dx dy st r') r) = i
       \<and> stores_size (el_body (heap (resizeElement ds h c dx dy st r') r))"
proof (cases "r' = r")
  case True
  with assms resizeElement_stores [of st r ds s h c dx dy] show ?thesis by simp
next
  case False
  with assms show ?thesis by (simp add: resizeElement_frame)
qed

lemma resize_fold_keeps:
  assumes "geometry (heap st r) = resizeProps h c dx dy s
         \<and> el_id (heap st r) = i \<and> stores_size (el_body (heap st r))"
    and "elementStartProps ds i = Some s"
  shows "geometry (heap (foldl (resizeElement ds h c dx dy) st rs) r) = resizeProps h c dx dy s
       \<and> el_id (heap (foldl (resizeElement ds h c dx dy) st rs) r) = i
       \<and> stores_size (el_body (heap (foldl (resizeElement ds h c dx dy) st rs) r))"
  using assms
proof (induction rs arbitrary: st)
  case Nil
  then show ?case by simp
next
  case (Cons a rs)
  from resizeElement_keeps [OF Cons.prems] Cons.IH [OF _ Cons.prems(2)]
  show ?case by simp
qed

lemma resize_fold_stores:
  assumes "r \<in> set rs" "stores_size (el_body (heap st r))"
    and "elementStartProps ds (el_id (heap st r)) = Some s"
  shows "geometry (heap (foldl (resizeElement ds h c dx dy) st rs) r) = resizeProps h c dx dy s"
  using assms
proof (induction rs arbitrary: st)
  case Nil
  then show ?case by simp
next
  case (Cons a rs)
  show ?case
  proof (cases "a = r")
    case True
    from resizeElement_stores [OF Cons.prems(2,3), of h c dx dy]
    have "geometry (heap (resizeElement ds h c dx dy st r) r) = resizeProps h c dx dy s
        \<and> el_id (heap (resizeElement ds h c dx dy st r) r) = el_id (heap st r)
        \<and> stores_size (el_body (heap (resizeElement ds h c dx dy st r) r))" .
    from resize_fold_keeps [OF this Cons.prems(3), of rs] True show ?thesis by simp
  next
    case False
    then have "heap (resizeElement ds h c dx dy st a) r = heap st r"
      by (simp add: resizeElement_frame)
    with Cons False show ?thesis by simp
  qed
qed

lemma handleResize_stores:
  assumes "dragState st = Some ds" "handlePosition ds = Some handle"
    and "r \<in> set (activeElements st)"
    and "stores_size (el_body (heap st r))"
    and "elementStartProps ds (el_id (heap st r)) = Some start"
  shows "geometry (heap (handleResize event st) r)
       = resizeProps handle (shiftKey event) (fst (toWorld event st) - startX ds)
           (snd (toWorld event st) - startY ds) start"
  using assms resize_fold_stores [OF assms(3,4,5)]
  by (simp add: handleResize_def Let_def)


text \<open>
  C6 (amended). For an element whose width and height setters store what they are given
  (an image, or a rectangle shape of non-zero width and height), an unconstrained
  resize step decomposes the pointer delta per handle side, each extent floored at 5: a
  left handle sets the width to the snapshot's minus dx and keeps the right edge where the
  snapshot had it, a right handle sets it to the snapshot's plus dx and keeps x, a handle
  with neither side keeps x and the width; the same with top, bottom, y, height and dy.
\<close>

theorem resize_decomposition:
  assumes gesture: "dragState st = Some ds" "handlePosition ds = Some handle"
    and unconstrained: "\<not> shiftKey event"
    and active: "r \<in> set (activeElements st)"
    and stores: "stores_size (el_body (heap st r))"
    and snap: "elementStartProps ds (el_id (heap st r)) = Some start"
  shows "let dx = fst (toWorld event st) - startX ds;
             dy = snd (toWorld event st) - startY ds;
             e = heap (handleResize event st) r
         in (handle \<in> {TopLeft, MiddleLeft, BottomLeft} \<longrightarrow>
               get_width e = max 5 (sp_width start - dx)
             \<and> el_x e + get_width e = sp_x start + sp_width start)
          \<and> (handle \<in> {TopRight, MiddleRight, BottomRight} \<longrightarrow>
               get_width e = max 5 (sp_width start + dx) \<and> el_x e = sp_x start)
          \<and> (handle \<in> {TopCenter, BottomCenter, Rotate} \<longrightarrow>
               get_width e = max 5 (sp_width start) \<and> el_x e = sp_x start)
          \<and> (handle \<in> {TopLeft, TopCenter, TopRight} \<longrightarrow>
               get_height e = max 5 (sp_height start - dy)
             \<and> el_y e + get_height e = sp_y start + sp_height start)
          \<and> (handle \<in> {BottomLeft, BottomCenter, BottomRight} \<longrightarrow>
               get_height e = max 5 (sp_height start + dy) \<and> el_y e = sp_y start)
          \<and> (handle \<in> {MiddleLeft, MiddleRight, Rotate} \<longrightarrow>
               get_height e = max 5 (sp_height start) \<and> el_y e = sp_y start)"
proof -
  let ?dx = "fst (toWorld event st) - startX ds"
  let ?dy = "snd (toWorld event st) - startY ds"
  let ?e = "heap (handleResize event st) r"
  have "geometry ?e = resizeProps handle False ?dx ?dy start"
    using handleResize_stores [OF gesture active stores snap, of event] unconstrained by simp
  then have g: "el_x ?e = newX (resizeProps handle False ?dx ?dy start)"
    "el_y ?e = newY (resizeProps handle False ?dx ?dy start)"
    "get_width ?e = newW (resizeProps handle False ?dx ?dy start)"
    "get_height ?e = newH (resizeProps handle False ?dx ?dy start)"
    by (simp_all add: geometry_sel)
  show ?thesis
    unfolding Let_def g
    using resize_unconstrained_x [of handle ?dx ?dy start]
      resize_unconstrained_y [of handle ?dx ?dy start]
    by blast
qed



text \<open>
  C7 (amended). The width and height a resize step assigns are at least 5, whatever the
  handle, the delta and the constraint; an element whose setters store what they are given
  ends with exactly the assigned position and size, so its width and height are at least
  5; and when the floor replaces a smaller width on a left handle (height on a top handle)
  the element's far edge is where the snapshot had it.
\<close>

theorem resize_floor:
  assumes gesture: "dragState st = Some ds" "handlePosition ds = Some handle"
    and active: "r \<in> set (activeElements st)"
    and stores: "stores_size (el_body (heap st r))"
    and snap: "elementStartProps ds (el_id (heap st r)) = Some start"
  shows "let dx = fst (toWorld event st) - startX ds;
             dy = snd (toWorld event st) - startY ds;
             unfloored = resizeUnfloored handle (shiftKey event) dx dy start;
             assigned = resizeProps handle (shiftKey event) dx dy start;
             e = heap (handleResize event st) r
         in 5 \<le> newW assigned \<and> 5 \<le> newH assigned
          \<and> geometry e = assigned
          \<and> 5 \<le> get_width e \<and> 5 \<le> get_height e
          \<and> (newW unfloored < 5 \<and> handle \<in> {TopLeft, MiddleLeft, BottomLeft} \<longrightarrow>
               get_width e = 5 \<and> el_x e + get_width e = sp_x start + sp_width start)
          \<and> (newH unfloored < 5 \<and> handle \<in> {TopLeft, TopCenter, TopRight} \<longrightarrow>
               get_height e = 5 \<and> el_y e + get_height e = sp_y start + sp_height start)"
proof -
  let ?dx = "fst (toWorld event st) - startX ds"
  let ?dy = "snd (toWorld event st) - startY ds"
  let ?u = "resizeUnfloored handle (shiftKey event) ?dx ?dy start"
  let ?n = "resizeProps handle (shiftKey event) ?dx ?dy start"
  let ?e = "heap (handleResize event st) r"
  have geo: "geometry ?e = ?n"
    using handleResize_stores [OF gesture active stores snap, of event] .
  then have g: "el_x ?e = newX ?n" "el_y ?e = newY ?n" "get_width ?e = newW ?n"
    "get_height ?e = newH ?n"
    by (simp_all add: geometry_sel)
  have n: "?n = resizeFloor handle start ?u"
    by (simp add: resizeProps_def)
  have m: "5 \<le> newW ?n" "5 \<le> newH ?n"
    by (rule resizeProps_min)+
  have ax: "newW ?u < 5 \<and> handle \<in> {TopLeft, MiddleLeft, BottomLeft} \<longrightarrow>
      newW ?n = 5 \<and> newX ?n + newW ?n = sp_x start + sp_width start"
    using resizeFloor_anchor_x [of ?u handle start] unfolding n by blast
  have ay: "newH ?u < 5 \<and> handle \<in> {TopLeft, TopCenter, TopRight} \<longrightarrow>
      newH ?n = 5 \<and> newY ?n + newH ?n = sp_y start + sp_height start"
    using resizeFloor_anchor_y [of ?u handle start] unfolding n by blast
  show ?thesis
    unfolding Let_def g using geo m ax ay by blast
qed


lemma resizing_rectScene:
  "dragState (resizing h rectScene)
     = Some \<lparr>mode = ModeResize, startX = 0, startY = 0, handlePosition = Some h,
             elementStartProps = takeStartProps [0] rectScene\<rparr>"
  "activeElements (resizing h rectScene) = [0]"
  "heap (resizing h rectScene) = heap rectScene"
  "toWorld (pointerAt px py) (resizing h rectScene) = (px, py)"
  by (simp_all add: resizing_def startResize_def toWorld_def pointerAt_def emit_def Let_def
      rectScene_def scene_defs)

lemma pointerAt_shiftKey: "shiftKey (pointerAt px py) = False"
  by (simp add: pointerAt_def)

lemma rectScene_snapshot:
  "takeStartProps [0] rectScene (el_id (heap rectScene 0)) = Some rectStart"
  "stores_size (el_body (heap rectScene 0))"
  by (simp_all add: takeStartProps_def snapshot_def rectScene_0 rectangle_def newElement_def
      get_width_def get_height_def rectStart_def)

text \<open>
  Witness of C6: the rectangle at (10, 10) of size 100 by 50; the bottom-right handle
  dragged by (20, 10) gives (10, 10, 120, 60) and the top-left handle (30, 20, 80, 40).
\<close>

theorem resize_decomposition_witness:
  "geometry (heap (handleResize (pointerAt 20 10) (resizing BottomRight rectScene)) 0)
     = \<lparr>newX = 10, newY = 10, newW = 120, newH = 60\<rparr>
   \<and> geometry (heap (handleResize (pointerAt 20 10) (resizing TopLeft rectScene)) 0)
     = \<lparr>newX = 30, newY = 20, newW = 80, newH = 40\<rparr>"
proof -
  have ns: "\<not> shiftKey (pointerAt 20 10)" by (simp add: pointerAt_shiftKey)
  have br: "geometry (heap (handleResize (pointerAt 20 10) (resizing BottomRight rectScene)) 0)
     = \<lparr>newX = 10, newY = 10, newW = 120, newH = 60\<rparr>"
    using resize_decomposition [where st = "resizing BottomRight rectScene" and r = 0
        and handle = BottomRight and start = rectStart and event = "pointerAt 20 10",
        OF resizing_rectScene(1)] rectScene_snapshot ns
    by (simp add: resizing_rectScene geometry_def rectStart_def Let_def)
  have tl: "geometry (heap (handleResize (pointerAt 20 10) (resizing TopLeft rectScene)) 0)
     = \<lparr>newX = 30, newY = 20, newW = 80, newH = 40\<rparr>"
    using resize_decomposition [where st = "resizing TopLeft rectScene" and r = 0
        and handle = TopLeft and start = rectStart and event = "pointerAt 20 10",
        OF resizing_rectScene(1)] rectScene_snapshot ns
    by (simp add: resizing_rectScene geometry_def rectStart_def Let_def)
  from br tl show ?thesis by simp
qed

text \<open>
  Witness of C7: the top-left handle dragged by (98, 47) would leave 2 by 3; the step
  assigns 5 by 5 at (105, 55), so that the right and bottom edges stay at 110 and 60.
\<close>

theorem resize_floor_witness:
  "newW (resizeUnfloored TopLeft False 98 47 rectStart) = 2
   \<and> newH (resizeUnfloored TopLeft False 98 47 rectStart) = 3
   \<and> geometry (heap (handleResize (pointerAt 98 47) (resizing TopLeft rectScene)) 0)
     = \<lparr>newX = 105, newY = 55, newW = 5, newH = 5\<rparr>"
proof -
  have u: "newW (resizeUnfloored TopLeft False 98 47 rectStart) = 2"
    "newH (resizeUnfloored TopLeft False 98 47 rectStart) = 3"
    by (simp_all add: resizeUnfloored_def resizeSides_def rectStart_def Let_def)
  have "geometry (heap (handleResize (pointerAt 98 47) (resizing TopLeft rectScene)) 0)
     = \<lparr>newX = 105, newY = 55, newW = 5, newH = 5\<rparr>"
    using resize_floor [where st = "resizing TopLeft rectScene" and r = 0
        and handle = TopLeft and start = rectStart and event = "pointerAt 98 47",
        OF resizing_rectScene(1)] rectScene_snapshot u
    by (simp add: resizing_rectScene geometry_def rectStart_def Let_def pointerAt_shiftKey)
  with u show ?thesis by simp
qed


lemmas gesture_defs = resizing_def startResize_def handleResize_def resizeElement_def
  resizeProps_def resizeUnfloored_def resizeSides_def resizeFloor_def toWorld_def pointerAt_def
  takeStartProps_def snapshot_def geometry_def get_width_def get_height_def
  set_x_def set_y_def set_width_def set_height_def emitChange_def onActionPerformed_def

text \<open>
  Counterexample to C6 as stated: a text at snapshot (10, 10, 100, 50) keeps its size
  under the bottom-right drag of (20, 10), and under the top-left drag it moves to
  (30, 20) at the same size, because its width and height cannot be assigned; a circle of
  radius 50 resized by its middle-right handle with a delta of (20, 0) keeps width 100,
  because the height assigned after the width sets the one radius back; and a line from
  (110, 10) to (10, 60), whose snapshot is (10, 10, 100, 50), ends at width 20 and not 120
  under the bottom-right drag of (20, 10).
\<close>

theorem resize_decomposition_counterexample:
  "geometry (heap textScene 0) = \<lparr>newX = 10, newY = 10, newW = 100, newH = 50\<rparr>
   \<and> geometry (heap (handleResize (pointerAt 20 10) (resizing BottomRight textScene)) 0)
       = \<lparr>newX = 10, newY = 10, newW = 100, newH = 50\<rparr>
   \<and> geometry (heap (handleResize (pointerAt 20 10) (resizing TopLeft textScene)) 0)
       = \<lparr>newX = 30, newY = 20, newW = 100, newH = 50\<rparr>
   \<and> geometry (heap circleScene 0) = \<lparr>newX = 0, newY = 0, newW = 100, newH = 100\<rparr>
   \<and> geometry (heap (handleResize (pointerAt 20 0) (resizing MiddleRight circleScene)) 0)
       = \<lparr>newX = 0, newY = 0, newW = 100, newH = 100\<rparr>
   \<and> geometry (heap lineScene 0) = \<lparr>newX = 10, newY = 10, newW = 100, newH = 50\<rparr>
   \<and> geometry (heap (handleResize (pointerAt 20 10) (resizing BottomRight lineScene)) 0)
       = \<lparr>newX = 10, newY = 10, newW = 20, newH = 60\<rparr>"
  by (simp add: textScene_def textElement_def circleScene_def lineScene_def gesture_defs
      scene_defs or_one_def Let_def)

text \<open>
  Counterexample to C7 as stated: a rectangle of width 0 keeps width 0 through a resize
  step, since the shape's width setter returns when the current width is 0; and a text
  that reads 3 by 20 still reads 3 by 20 after one, since its width cannot be assigned.
\<close>

theorem resize_floor_counterexample:
  "geometry (heap zeroScene 0) = \<lparr>newX = 0, newY = 0, newW = 0, newH = 20\<rparr>
   \<and> geometry (heap (handleResize (pointerAt 20 10) (resizing BottomRight zeroScene)) 0)
       = \<lparr>newX = 0, newY = 0, newW = 0, newH = 30\<rparr>
   \<and> geometry (heap tinyText 0) = \<lparr>newX = 0, newY = 0, newW = 3, newH = 20\<rparr>
   \<and> geometry (heap (handleResize (pointerAt 20 10) (resizing BottomRight tinyText)) 0)
       = \<lparr>newX = 0, newY = 0, newW = 3, newH = 20\<rparr>"
  by (simp add: zeroScene_def tinyText_def textElement_def gesture_defs scene_defs Let_def)

lemma set_x_gesture:
  "dragState (set_x r v st) = dragState st" "activeElements (set_x r v st) = activeElements st"
  "filter is_commit (emitted (set_x r v st)) = filter is_commit (emitted st)"
  by (simp_all add: set_x_def emitChange_def emit_def update_el_def onActionPerformed_def Let_def)

lemma set_y_gesture:
  "dragState (set_y r v st) = dragState st" "activeElements (set_y r v st) = activeElements st"
  "filter is_commit (emitted (set_y r v st)) = filter is_commit (emitted st)"
  by (simp_all add: set_y_def emitChange_def emit_def update_el_def onActionPerformed_def Let_def)

lemma repositioned_idem: "repositioned ds (repositioned ds e) = repositioned ds e"
  by (simp add: repositioned_def split: option.splits)

lemma restoreElement_heap:
  "heap (restoreElement ds st r) = (heap st)(r := repositioned ds (heap st r))"
  by (auto simp add: restoreElement_def repositioned_def set_x_heap set_y_heap split: option.splits)

lemma restoreElement_gesture:
  "filter is_commit (emitted (restoreElement ds st r)) = filter is_commit (emitted st)"
  by (simp add: restoreElement_def set_x_gesture set_y_gesture split: option.splits)

lemma restore_fold_heap:
  "heap (foldl (restoreElement ds) st rs) r =
     (if r \<in> set rs then repositioned ds (heap st r) else heap st r)"
proof (induction rs arbitrary: st)
  case Nil
  show ?case by simp
next
  case (Cons a rs)
  show ?case
    by (simp add: Cons.IH restoreElement_heap repositioned_idem)
qed

lemma restore_fold_gesture:
  "filter is_commit (emitted (foldl (restoreElement ds) st rs)) = filter is_commit (emitted st)"
  by (induction rs arbitrary: st) (simp_all add: restoreElement_gesture)

lemma takeStartProps_snoc:
  "takeStartProps (els @ [a]) st = (takeStartProps els st)(el_id (heap st a) \<mapsto> snapshot (heap st a))"
  by (simp add: takeStartProps_def)

lemma takeStartProps_lookup:
  assumes "r \<in> set els" and "inj_on (\<lambda>r. el_id (heap st r)) (set els)"
  shows "takeStartProps els st (el_id (heap st r)) = Some (snapshot (heap st r))"
  using assms
proof (induction els rule: rev_induct)
  case Nil
  then show ?case by simp
next
  case (snoc a els)
  show ?case
  proof (cases "r = a")
    case True
    then show ?thesis by (simp add: takeStartProps_snoc)
  next
    case False
    with snoc.prems have r: "r \<in> set els" by simp
    have "el_id (heap st r) \<noteq> el_id (heap st a)"
      using snoc.prems(2) False r by (auto simp add: inj_on_def)
    moreover have "inj_on (\<lambda>r. el_id (heap st r)) (set els)"
      using snoc.prems(2) by (auto simp add: inj_on_def)
    ultimately show ?thesis
      using snoc.IH r by (simp add: takeStartProps_snoc)
  qed
qed

lemma shifted_refl: "shifted els h h"
  by (simp add: shifted_def)

lemma shifted_set_x:
  assumes "shifted els h0 (heap st)" and "r \<in> set els"
  shows "shifted els h0 (heap (set_x r v st))" and "shifted els h0 (heap (set_y r v st))"
proof -
  have a: "heap st q = (h0 q)\<lparr>el_x := el_x (heap st q), el_y := el_y (heap st q)\<rparr>"
    if "q \<in> set els" for q
    using assms(1) that by (simp add: shifted_def)
  have b: "heap st q = h0 q" if "q \<notin> set els" for q
    using assms(1) that by (simp add: shifted_def)
  have x: "(heap st r)\<lparr>el_x := v\<rparr> = (h0 r)\<lparr>el_x := v, el_y := el_y (heap st r)\<rparr>"
    by (subst a [OF assms(2)]) simp
  have y: "(heap st r)\<lparr>el_y := v\<rparr> = (h0 r)\<lparr>el_x := el_x (heap st r), el_y := v\<rparr>"
    by (subst a [OF assms(2)]) simp
  show "shifted els h0 (heap (set_x r v st))"
    unfolding shifted_def set_x_heap using a b x assms(2) by auto
  show "shifted els h0 (heap (set_y r v st))"
    unfolding shifted_def set_y_heap using a b y assms(2) by auto
qed

lemma shifted_moveElement:
  assumes "shifted els h0 (heap st)" and "r \<in> set els"
  shows "shifted els h0 (heap (moveElement ds dx dy st r))"
  using assms by (simp add: moveElement_def shifted_set_x split: option.splits)

lemma moveElement_gesture:
  "dragState (moveElement ds dx dy st r) = dragState st"
  "activeElements (moveElement ds dx dy st r) = activeElements st"
  "filter is_commit (emitted (moveElement ds dx dy st r)) = filter is_commit (emitted st)"
  by (simp_all add: moveElement_def set_x_gesture set_y_gesture split: option.splits)

lemma move_fold:
  assumes "shifted els h0 (heap st)" and "set rs \<subseteq> set els"
  shows "shifted els h0 (heap (foldl (moveElement ds dx dy) st rs))
       \<and> dragState (foldl (moveElement ds dx dy) st rs) = dragState st
       \<and> activeElements (foldl (moveElement ds dx dy) st rs) = activeElements st
       \<and> filter is_commit (emitted (foldl (moveElement ds dx dy) st rs))
           = filter is_commit (emitted st)"
  using assms
proof (induction rs arbitrary: st)
  case Nil
  then show ?case by simp
next
  case (Cons a rs)
  have "shifted els h0 (heap (moveElement ds dx dy st a))"
    using Cons.prems by (simp add: shifted_moveElement)
  from Cons.IH [OF this] Cons.prems(2) show ?case
    by (simp add: moveElement_gesture)
qed

lemma onPointerMove_moving:
  assumes "dragState st = Some ds" and "mode ds = ModeMove" and "activeElements st = els"
    and "shifted els h0 (heap st)"
  shows "dragState (onPointerMove event st) = Some ds
       \<and> activeElements (onPointerMove event st) = els
       \<and> shifted els h0 (heap (onPointerMove event st))
       \<and> filter is_commit (emitted (onPointerMove event st)) = filter is_commit (emitted st)"
  using assms
    move_fold [of els h0 st els ds "fst (toWorld event st) - startX ds"
      "snd (toWorld event st) - startY ds"]
  by (simp add: onPointerMove_def handleMove_def emit_def Let_def)

lemma moving_invariant:
  "dragState (gesture (startMove els event0) events st) =
     Some \<lparr>mode = ModeMove, startX = fst (toWorld event0 st), startY = snd (toWorld event0 st),
           handlePosition = None, elementStartProps = takeStartProps els st\<rparr>
   \<and> activeElements (gesture (startMove els event0) events st) = els
   \<and> shifted els (heap st) (heap (gesture (startMove els event0) events st))
   \<and> filter is_commit (emitted (gesture (startMove els event0) events st)) = filter is_commit (emitted st)"
proof (induction events rule: rev_induct)
  case Nil
  show ?case
    by (cases els) (simp_all add: gesture_def startMove_def emit_def Let_def shifted_refl)
next
  case (snoc event events)
  have "gesture (startMove els event0) (events @ [event]) st = onPointerMove event (gesture (startMove els event0) events st)"
    by (simp add: gesture_def)
  with snoc onPointerMove_moving [of "gesture (startMove els event0) events st" _ els "heap st" event]
  show ?case by simp
qed

lemma cancel_move_restores:
  assumes "inj_on (\<lambda>r. el_id (heap st r)) (set els)"
  shows "heap (cancel (gesture (startMove els event0) events st)) = heap st"
proof
  fix r
  let ?m = "gesture (startMove els event0) events st"
  let ?ds = "\<lparr>mode = ModeMove, startX = fst (toWorld event0 st), startY = snd (toWorld event0 st),
           handlePosition = None, elementStartProps = takeStartProps els st\<rparr>"
  note inv = moving_invariant [of els event0 events st]
  then have d: "dragState ?m = Some ?ds" and a: "activeElements ?m = els"
    and s: "shifted els (heap st) (heap ?m)"
    by simp_all
  show "heap (cancel ?m) r = heap st r"
  proof (cases "r \<in> set els")
    case False
    then have "heap (cancel ?m) r = heap ?m r"
      using d a by (simp add: cancel_def restore_fold_heap)
    with s False show ?thesis by (simp add: shifted_def)
  next
    case True
    with s have h: "heap ?m r = (heap st r)\<lparr>el_x := el_x (heap ?m r), el_y := el_y (heap ?m r)\<rparr>"
      by (simp add: shifted_def)
    have "el_id (heap ?m r) = el_id (heap st r)"
      by (subst h) simp
    then have "elementStartProps ?ds (el_id (heap ?m r)) = Some (snapshot (heap st r))"
      using takeStartProps_lookup [OF True assms] by simp
    then have "heap (cancel ?m) r
        = (heap ?m r)\<lparr>el_x := el_x (heap st r), el_y := el_y (heap st r)\<rparr>"
      using d a True by (simp add: cancel_def restore_fold_heap repositioned_def snapshot_def)
    also have "\<dots> = heap st r"
      by (subst h) simp
    finally show ?thesis .
  qed
qed

lemma same_gesture_refl: "same_gesture st st"
  by (simp add: same_gesture_def)

lemma same_gesture_trans: "same_gesture a b \<Longrightarrow> same_gesture b c \<Longrightarrow> same_gesture a c"
  by (simp add: same_gesture_def)

lemma assign_gesture: "same_gesture st (assign r p v st)"
  unfolding same_gesture_def
  by (cases p; cases v; cases "el_body (heap st r)";
      simp add: setter_defs emitChange_def emit_def update_el_def onActionPerformed_def Let_def)

lemma setters_gesture:
  assumes "same_gesture st0 st"
  shows "same_gesture st0 (set_x r v st)" "same_gesture st0 (set_y r v st)"
    "same_gesture st0 (set_width r v st)" "same_gesture st0 (set_height r v st)"
    "same_gesture st0 (set_rotation r v st)"
  using assign_gesture [of st r Prop_x "NumV v"] assign_gesture [of st r Prop_y "NumV v"]
    assign_gesture [of st r Prop_width "NumV v"] assign_gesture [of st r Prop_height "NumV v"]
    assign_gesture [of st r Prop_rotation "NumV v"] assms
  by (auto intro: same_gesture_trans)

lemma element_steps_gesture:
  assumes "same_gesture st0 st"
  shows "same_gesture st0 (moveElement ds dx dy st r)"
    "same_gesture st0 (resizeElement ds h c dx dy st r)"
    "same_gesture st0 (rotateElement ds world st r)"
  using assms
  by (simp_all add: moveElement_def resizeElement_def rotateElement_def Let_def setters_gesture
      split: option.splits)

lemma fold_gesture:
  assumes "\<And>s r. same_gesture st0 s \<Longrightarrow> same_gesture st0 (f s r)" and "same_gesture st0 st"
  shows "same_gesture st0 (foldl f st rs)"
  using assms(2)
proof (induction rs arbitrary: st)
  case Nil
  then show ?case by simp
next
  case (Cons a rs)
  from Cons.IH [OF assms(1) [OF Cons.prems]] show ?case by simp
qed

lemma emit_gesture:
  "\<not> is_commit ev \<Longrightarrow> same_gesture st0 st \<Longrightarrow> same_gesture st0 (emit ev st)"
  by (cases ev) (simp_all add: same_gesture_def emit_def onPointerMove_def onActionPerformed_def Let_def)

lemma onPointerMove_gesture:
  assumes "same_gesture st0 st"
  shows "same_gesture st0 (onPointerMove event st)"
proof (cases "dragState st")
  case None
  then show ?thesis using assms by (simp add: onPointerMove_def)
next
  case (Some ds)
  have m: "same_gesture st0 (handleMove event st)"
    using Some assms
    by (simp add: handleMove_def Let_def emit_gesture fold_gesture element_steps_gesture)
  have r: "same_gesture st0 (handleResize event st)"
    using Some assms
    by (simp add: handleResize_def Let_def fold_gesture element_steps_gesture
        split: option.splits)
  have o: "same_gesture st0 (handleRotate event st)"
    using Some assms
    by (simp add: handleRotate_def Let_def fold_gesture element_steps_gesture)
  from Some m r o assms show ?thesis
    by (cases "mode ds") (simp_all add: onPointerMove_def)
qed

lemma gesture_same: "same_gesture (start st) (gesture start events st)"
proof (induction events rule: rev_induct)
  case Nil
  show ?case by (simp add: gesture_def same_gesture_refl)
next
  case (snoc event events)
  have "gesture start (events @ [event]) st = onPointerMove event (gesture start events st)"
    by (simp add: gesture_def)
  with snoc onPointerMove_gesture [of "start st" "gesture start events st" event] show ?case
    by simp
qed

lemma start_facts:
  assumes "start \<in> {startMove els event0, startResize els handle event0, startRotate els event0}"
  shows "\<exists>ds. dragState (start st) = Some ds \<and> elementStartProps ds = takeStartProps els st"
    and "activeElements (start st) = els" and "heap (start st) = heap st"
    and "filter is_commit (emitted (start st)) = filter is_commit (emitted st)"
  using assms
  by (cases els; auto simp add: startMove_def startResize_def startRotate_def emit_def Let_def)+

lemma cancel_gesture_position:
  assumes start: "start \<in> {startMove els event0, startResize els handle event0, startRotate els event0}"
    and ids: "inj_on (\<lambda>r. el_id (heap st r)) (set els)"
  shows "dragState (cancel (gesture start events st)) = None"
    and "filter is_commit (emitted (cancel (gesture start events st)))
           = filter is_commit (emitted st)"
    and "r \<in> set els \<Longrightarrow> el_x (heap (cancel (gesture start events st)) r) = el_x (heap st r)
           \<and> el_y (heap (cancel (gesture start events st)) r) = el_y (heap st r)"
proof -
  let ?g = "gesture start events st"
  from start_facts(1) [OF start, of st] obtain ds where
    ds: "dragState (start st) = Some ds" "elementStartProps ds = takeStartProps els st"
    by blast
  note s = gesture_same [of start st events]
  then have d: "dragState ?g = Some ds" and a: "activeElements ?g = els"
    and e: "filter is_commit (emitted ?g) = filter is_commit (emitted st)"
    and i: "\<And>r. el_id (heap ?g r) = el_id (heap st r)"
    using ds start_facts(2,3,4) [OF start, of st] by (simp_all add: same_gesture_def)
  show "dragState (cancel ?g) = None"
    using d by (simp add: cancel_def)
  show "filter is_commit (emitted (cancel ?g)) = filter is_commit (emitted st)"
    using d e by (simp add: cancel_def restore_fold_gesture)
  show "el_x (heap (cancel ?g) r) = el_x (heap st r)
      \<and> el_y (heap (cancel ?g) r) = el_y (heap st r)" if r: "r \<in> set els"
  proof -
    have "elementStartProps ds (el_id (heap ?g r)) = Some (snapshot (heap st r))"
      using takeStartProps_lookup [OF r ids] ds(2) i by simp
    then show ?thesis
      using d a r by (simp add: cancel_def restore_fold_heap repositioned_def snapshot_def)
  qed
qed

text \<open>
  C3 (amended). Without an active gesture cancel() does nothing. With one, it clears the
  gesture state and emits no commit event; every active element that has a snapshot gets
  the snapshot's x and y and keeps everything else, its width, height and rotation
  included, as the gesture left it; no other element changes. So after a gesture of any
  of the three kinds (its start and any number of pointer moves, over elements with
  pairwise different ids) cancel() leaves every affected element at the x and y it had
  when the gesture started, and after a move gesture it leaves every element exactly as it
  was then.
\<close>

theorem cancel_restores_position:
  "(dragState st = None \<longrightarrow> cancel st = st)
   \<and> (\<forall>ds. dragState st = Some ds \<longrightarrow>
        dragState (cancel st) = None \<and> activeElements (cancel st) = []
      \<and> filter is_commit (emitted (cancel st)) = filter is_commit (emitted st)
      \<and> (\<forall>r start. r \<in> set (activeElements st)
            \<and> elementStartProps ds (el_id (heap st r)) = Some start \<longrightarrow>
            heap (cancel st) r = (heap st r)\<lparr>el_x := sp_x start, el_y := sp_y start\<rparr>)
      \<and> (\<forall>r. r \<notin> set (activeElements st) \<or> elementStartProps ds (el_id (heap st r)) = None \<longrightarrow>
            heap (cancel st) r = heap st r))
   \<and> (start \<in> {startMove els event0, startResize els handle event0, startRotate els event0}
        \<and> inj_on (\<lambda>r. el_id (heap st r)) (set els) \<longrightarrow>
        dragState (cancel (gesture start events st)) = None
      \<and> filter is_commit (emitted (cancel (gesture start events st)))
          = filter is_commit (emitted st)
      \<and> (\<forall>r\<in>set els. el_x (heap (cancel (gesture start events st)) r) = el_x (heap st r)
                      \<and> el_y (heap (cancel (gesture start events st)) r) = el_y (heap st r)))
   \<and> (inj_on (\<lambda>r. el_id (heap st r)) (set els) \<longrightarrow>
        heap (cancel (gesture (startMove els event0) events st)) = heap st)"
proof -
  have a: "dragState st = None \<longrightarrow> cancel st = st"
    by (simp add: cancel_def)
  have b: "\<forall>ds. dragState st = Some ds \<longrightarrow>
        dragState (cancel st) = None \<and> activeElements (cancel st) = []
      \<and> filter is_commit (emitted (cancel st)) = filter is_commit (emitted st)
      \<and> (\<forall>r start. r \<in> set (activeElements st)
            \<and> elementStartProps ds (el_id (heap st r)) = Some start \<longrightarrow>
            heap (cancel st) r = (heap st r)\<lparr>el_x := sp_x start, el_y := sp_y start\<rparr>)
      \<and> (\<forall>r. r \<notin> set (activeElements st) \<or> elementStartProps ds (el_id (heap st r)) = None \<longrightarrow>
            heap (cancel st) r = heap st r)"
    by (auto simp add: cancel_def restore_fold_heap restore_fold_gesture repositioned_def)
  have c: "start \<in> {startMove els event0, startResize els handle event0, startRotate els event0}
        \<and> inj_on (\<lambda>r. el_id (heap st r)) (set els) \<longrightarrow>
        dragState (cancel (gesture start events st)) = None
      \<and> filter is_commit (emitted (cancel (gesture start events st)))
          = filter is_commit (emitted st)
      \<and> (\<forall>r\<in>set els. el_x (heap (cancel (gesture start events st)) r) = el_x (heap st r)
                      \<and> el_y (heap (cancel (gesture start events st)) r) = el_y (heap st r))"
  proof (intro impI, elim conjE)
    assume h: "start \<in> {startMove els event0, startResize els handle event0, startRotate els event0}"
      "inj_on (\<lambda>r. el_id (heap st r)) (set els)"
    from cancel_gesture_position [where events = events, OF h]
    show "dragState (cancel (gesture start events st)) = None
      \<and> filter is_commit (emitted (cancel (gesture start events st)))
          = filter is_commit (emitted st)
      \<and> (\<forall>r\<in>set els. el_x (heap (cancel (gesture start events st)) r) = el_x (heap st r)
                      \<and> el_y (heap (cancel (gesture start events st)) r) = el_y (heap st r))"
      by simp
  qed
  have d: "inj_on (\<lambda>r. el_id (heap st r)) (set els) \<longrightarrow>
        heap (cancel (gesture (startMove els event0) events st)) = heap st"
    using cancel_move_restores [of st els event0 events] by (rule impI)
  show ?thesis
    by (rule conjI [OF a conjI [OF b conjI [OF c d]]])
qed

text \<open>
  Witness of C3: the rectangle at (10, 10) is dragged by (20, 10) and then to (5, 5);
  cancel() puts the scene's elements back as they were and ends the gesture. Resized by
  its top-left handle with a delta of (20, 10), it is at (30, 20); cancel() puts it back
  at (10, 10).
\<close>

theorem cancel_restores_position_witness:
  "geometry (heap (gesture (startMove [0] (pointerAt 0 0)) [pointerAt 20 10] rectScene) 0)
     = \<lparr>newX = 30, newY = 20, newW = 100, newH = 50\<rparr>
   \<and> geometry (heap (gesture (startMove [0] (pointerAt 0 0)) [pointerAt 20 10, pointerAt 5 5]
                        rectScene) 0)
     = \<lparr>newX = 15, newY = 15, newW = 100, newH = 50\<rparr>
   \<and> heap (cancel (gesture (startMove [0] (pointerAt 0 0)) [pointerAt 20 10, pointerAt 5 5]
                      rectScene))
     = heap rectScene
   \<and> geometry (heap (gesture (startResize [0] TopLeft (pointerAt 0 0)) [pointerAt 20 10]
                        rectScene) 0)
     = \<lparr>newX = 30, newY = 20, newW = 80, newH = 40\<rparr>
   \<and> el_x (heap (cancel (gesture (startResize [0] TopLeft (pointerAt 0 0)) [pointerAt 20 10]
                            rectScene)) 0) = 10
   \<and> el_y (heap (cancel (gesture (startResize [0] TopLeft (pointerAt 0 0)) [pointerAt 20 10]
                            rectScene)) 0) = 10
   \<and> dragState (cancel (gesture (startResize [0] TopLeft (pointerAt 0 0)) [pointerAt 20 10]
                           rectScene)) = None"
proof -
  have i: "inj_on (\<lambda>r. el_id (heap rectScene r)) (set [0])" by simp
  have m: "geometry (heap (gesture (startMove [0] (pointerAt 0 0)) [pointerAt 20 10] rectScene) 0)
      = \<lparr>newX = 30, newY = 20, newW = 100, newH = 50\<rparr>
    \<and> geometry (heap (gesture (startMove [0] (pointerAt 0 0)) [pointerAt 20 10, pointerAt 5 5]
                         rectScene) 0)
      = \<lparr>newX = 15, newY = 15, newW = 100, newH = 50\<rparr>"
    by (simp add: gesture_def startMove_def onPointerMove_def handleMove_def moveElement_def
        toWorld_def pointerAt_def takeStartProps_def snapshot_def geometry_def get_width_def
        get_height_def set_x_def set_y_def emitChange_def onActionPerformed_def
        rectScene_def scene_defs Let_def)
  have z: "geometry (heap (gesture (startResize [0] TopLeft (pointerAt 0 0)) [pointerAt 20 10]
                        rectScene) 0)
      = \<lparr>newX = 30, newY = 20, newW = 80, newH = 40\<rparr>"
    by (simp add: gesture_def onPointerMove_def rectScene_def gesture_defs scene_defs Let_def)
  have x: "el_x (heap rectScene 0) = 10" "el_y (heap rectScene 0) = 10"
    by (simp_all add: rectScene_0 rectangle_def newElement_def)
  note t1 = cancel_restores_position
    [of rectScene "startMove [0] (pointerAt 0 0)" "[0]" "pointerAt 0 0" TopLeft
        "[pointerAt 20 10, pointerAt 5 5]"]
  note t2 = cancel_restores_position
    [of rectScene "startResize [0] TopLeft (pointerAt 0 0)" "[0]" "pointerAt 0 0" TopLeft
        "[pointerAt 20 10]"]
  from t1 i have "heap (cancel (gesture (startMove [0] (pointerAt 0 0))
      [pointerAt 20 10, pointerAt 5 5] rectScene)) = heap rectScene"
    by blast
  moreover from t2 i x
  have "el_x (heap (cancel (gesture (startResize [0] TopLeft (pointerAt 0 0)) [pointerAt 20 10]
                            rectScene)) 0) = 10
    \<and> el_y (heap (cancel (gesture (startResize [0] TopLeft (pointerAt 0 0)) [pointerAt 20 10]
                            rectScene)) 0) = 10
    \<and> dragState (cancel (gesture (startResize [0] TopLeft (pointerAt 0 0)) [pointerAt 20 10]
                           rectScene)) = None"
    by simp
  ultimately show ?thesis using m z by simp
qed

text \<open>
  Counterexample to C3 as stated: a resize gesture on the rectangle at (10, 10) of size
  100 by 50, one pointer move of (20, 10), then cancel(). After the bottom-right gesture
  the element is still 120 by 60 and not the 100 by 50 of its snapshot; after the top-left
  gesture it is back at (10, 10) but 80 by 40. The gesture state is cleared.
\<close>

theorem cancel_after_resize_keeps_size:
  "geometry (heap rectScene 0) = \<lparr>newX = 10, newY = 10, newW = 100, newH = 50\<rparr>
   \<and> geometry (heap (onPointerMove (pointerAt 20 10) (resizing BottomRight rectScene)) 0)
       = \<lparr>newX = 10, newY = 10, newW = 120, newH = 60\<rparr>
   \<and> geometry (heap (cancel (onPointerMove (pointerAt 20 10) (resizing BottomRight rectScene))) 0)
       = \<lparr>newX = 10, newY = 10, newW = 120, newH = 60\<rparr>
   \<and> geometry (heap (cancel (onPointerMove (pointerAt 20 10) (resizing TopLeft rectScene))) 0)
       = \<lparr>newX = 10, newY = 10, newW = 80, newH = 40\<rparr>
   \<and> dragState (cancel (onPointerMove (pointerAt 20 10) (resizing BottomRight rectScene))) = None"
  by (simp add: rectScene_def gesture_defs scene_defs onPointerMove_def cancel_def
      restoreElement_def Let_def)


section \<open>Properties of the selection\<close>

lemma overlap_iff_common_point:
  assumes "0 \<le> b_width a" "0 \<le> b_height a" "0 \<le> b_width b" "0 \<le> b_height b"
  shows "boundsOverlap a b = (\<exists>p. covers a p \<and> covers b p)"
proof
  assume o: "boundsOverlap a b"
  let ?p = "(max (b_x a) (b_x b), max (b_y a) (b_y b))"
  have "covers a ?p \<and> covers b ?p"
    using o assms by (auto simp: boundsOverlap_def covers_def)
  then show "\<exists>p. covers a p \<and> covers b p" by blast
next
  assume "\<exists>p. covers a p \<and> covers b p"
  then obtain p where "covers a p" "covers b p" by blast
  then show "boundsOverlap a b"
    by (auto simp: boundsOverlap_def covers_def)
qed

text \<open>
  C4 (amended). The marquee overlap test is the overlap of closed rectangles: rectangles
  with a gap between them (a.right < b.left) never overlap; for rectangles of non-negative
  width and height the test holds exactly when they share a point, borders included, so
  rectangles touching exactly at an edge (a.right = b.left, vertical extents meeting) do
  overlap; any pair with an intersection of positive area overlaps; the test is symmetric.
\<close>

theorem boundsOverlap_closed:
  "(b_x a + b_width a < b_x b \<longrightarrow> \<not> boundsOverlap a b)
   \<and> (0 \<le> b_width a \<and> 0 \<le> b_height a \<and> 0 \<le> b_width b \<and> 0 \<le> b_height b \<longrightarrow>
        boundsOverlap a b = (\<exists>p. covers a p \<and> covers b p))
   \<and> (b_x a + b_width a = b_x b \<and> 0 \<le> b_width a + b_width b
        \<and> b_y a \<le> b_y b + b_height b \<and> b_y b \<le> b_y a + b_height a \<longrightarrow> boundsOverlap a b)
   \<and> (max (b_x a) (b_x b) < min (b_x a + b_width a) (b_x b + b_width b)
        \<and> max (b_y a) (b_y b) < min (b_y a + b_height a) (b_y b + b_height b) \<longrightarrow>
        boundsOverlap a b)
   \<and> boundsOverlap a b = boundsOverlap b a"
proof -
  have 1: "b_x a + b_width a < b_x b \<longrightarrow> \<not> boundsOverlap a b"
    by (simp add: boundsOverlap_def)
  have 2: "0 \<le> b_width a \<and> 0 \<le> b_height a \<and> 0 \<le> b_width b \<and> 0 \<le> b_height b \<longrightarrow>
        boundsOverlap a b = (\<exists>p. covers a p \<and> covers b p)"
    using overlap_iff_common_point [of a b] by blast
  have 3: "b_x a + b_width a = b_x b \<and> 0 \<le> b_width a + b_width b
        \<and> b_y a \<le> b_y b + b_height b \<and> b_y b \<le> b_y a + b_height a \<longrightarrow> boundsOverlap a b"
    by (auto simp: boundsOverlap_def)
  have 4: "max (b_x a) (b_x b) < min (b_x a + b_width a) (b_x b + b_width b)
        \<and> max (b_y a) (b_y b) < min (b_y a + b_height a) (b_y b + b_height b) \<longrightarrow>
        boundsOverlap a b"
    by (auto simp: boundsOverlap_def)
  have 5: "boundsOverlap a b = boundsOverlap b a"
    by (auto simp: boundsOverlap_def)
  from 1 2 3 4 5 show ?thesis by blast
qed

text \<open>Witness of C4: the square at the origin against the three others.\<close>

theorem boundsOverlap_closed_witness:
  "\<not> boundsOverlap unitSquare farSquare
   \<and> boundsOverlap unitSquare besideSquare
   \<and> boundsOverlap unitSquare crossSquare
   \<and> (\<exists>p. covers unitSquare p \<and> covers besideSquare p)"
proof -
  have a: "b_x unitSquare + b_width unitSquare < b_x farSquare"
    by (simp add: unitSquare_def farSquare_def)
  have b: "b_x unitSquare + b_width unitSquare = b_x besideSquare
      \<and> 0 \<le> b_width unitSquare + b_width besideSquare
      \<and> b_y unitSquare \<le> b_y besideSquare + b_height besideSquare
      \<and> b_y besideSquare \<le> b_y unitSquare + b_height unitSquare"
    by (simp add: unitSquare_def besideSquare_def)
  have c: "max (b_x unitSquare) (b_x crossSquare)
        < min (b_x unitSquare + b_width unitSquare) (b_x crossSquare + b_width crossSquare)
      \<and> max (b_y unitSquare) (b_y crossSquare)
        < min (b_y unitSquare + b_height unitSquare) (b_y crossSquare + b_height crossSquare)"
    by (simp add: unitSquare_def crossSquare_def)
  have d: "0 \<le> b_width unitSquare \<and> 0 \<le> b_height unitSquare
      \<and> 0 \<le> b_width besideSquare \<and> 0 \<le> b_height besideSquare"
    by (simp add: unitSquare_def besideSquare_def)
  from boundsOverlap_closed [of unitSquare farSquare] a
  have 1: "\<not> boundsOverlap unitSquare farSquare" by blast
  from boundsOverlap_closed [of unitSquare besideSquare] b d
  have 2: "boundsOverlap unitSquare besideSquare"
    and 4: "\<exists>p. covers unitSquare p \<and> covers besideSquare p" by blast+
  from boundsOverlap_closed [of unitSquare crossSquare] c
  have 3: "boundsOverlap unitSquare crossSquare" by blast
  from 1 2 3 4 show ?thesis by blast
qed

text \<open>
  Counterexample to C4 as stated: two squares that touch exactly at an edge
  (a.right = b.left) pass the overlap test.
\<close>

theorem touching_edges_overlap_counterexample:
  "b_x unitSquare + b_width unitSquare = b_x besideSquare
   \<and> boundsOverlap unitSquare besideSquare"
  by (simp add: boundsOverlap_def unitSquare_def besideSquare_def)


lemma set_add_member: "a \<in> set xs \<Longrightarrow> set_add a xs = xs"
  by (simp add: set_add_def)

lemma set_delete_absent: "a \<notin> set xs \<Longrightarrow> set_delete a xs = xs"
  by (auto simp add: set_delete_def filter_id_conv)

text \<open>
  C5 (amended). addToSelection on an element already selected, or deselect on an element
  not selected, leaves the selection set and everything else unchanged except that it
  emits one \<^verbatim>\<open>selection:changed\<close> event carrying the unchanged selection.
\<close>

theorem reselect_keeps_selection:
  "(r \<in> set (selected st) \<longrightarrow>
      addToSelection r st = st\<lparr>emitted := emitted st @ [SelectionChanged (selected st)]\<rparr>)
   \<and> (r \<notin> set (selected st) \<longrightarrow>
      deselect r st = st\<lparr>emitted := emitted st @ [SelectionChanged (selected st)]\<rparr>)"
  by (simp add: addToSelection_def deselect_def getSelected_def emit_def
      set_add_member set_delete_absent)

lemma pickedScene_facts:
  "selected pickedScene = [0]"
  "emitted pickedScene = [ElementAdded 0, ElementAdded 1, SelectionChanged [0]]"
  by (simp_all add: pickedScene_def addToSelection_def getSelected_def set_add_def scene_defs)

text \<open>Witness of C5: re-selecting the selected rectangle and deselecting the other one.\<close>

theorem reselect_keeps_selection_witness:
  "selected (addToSelection 0 pickedScene) = [0]
   \<and> emitted (addToSelection 0 pickedScene) = emitted pickedScene @ [SelectionChanged [0]]
   \<and> selected (deselect 1 pickedScene) = [0]
   \<and> emitted (deselect 1 pickedScene) = emitted pickedScene @ [SelectionChanged [0]]"
proof -
  have m: "0 \<in> set (selected pickedScene)" "1 \<notin> set (selected pickedScene)"
    by (simp_all add: pickedScene_facts)
  from reselect_keeps_selection [of 0 pickedScene] m
  have a: "addToSelection 0 pickedScene
      = pickedScene\<lparr>emitted := emitted pickedScene @ [SelectionChanged (selected pickedScene)]\<rparr>"
    by blast
  from reselect_keeps_selection [of 1 pickedScene] m
  have d: "deselect 1 pickedScene
      = pickedScene\<lparr>emitted := emitted pickedScene @ [SelectionChanged (selected pickedScene)]\<rparr>"
    by blast
  show ?thesis
    unfolding a d by (simp add: pickedScene_facts)
qed

text \<open>
  Counterexample to C5 as stated: both calls add a \<^verbatim>\<open>selection:changed\<close> event to the
  three events emitted before.
\<close>

theorem reselect_emits_counterexample:
  "0 \<in> set (selected pickedScene)
   \<and> emitted (addToSelection 0 pickedScene)
       = [ElementAdded 0, ElementAdded 1, SelectionChanged [0], SelectionChanged [0]]
   \<and> 1 \<notin> set (selected pickedScene)
   \<and> emitted (deselect 1 pickedScene)
       = [ElementAdded 0, ElementAdded 1, SelectionChanged [0], SelectionChanged [0]]"
  by (simp add: pickedScene_facts addToSelection_def deselect_def getSelected_def emit_def
      set_add_def set_delete_def)


section \<open>Properties of the z-order\<close>

lemma indexOf_Some: "indexOf xs a = Some i \<Longrightarrow> i < length xs \<and> xs ! i = a"
proof (induction xs arbitrary: i)
  case Nil
  then show ?case by simp
next
  case (Cons x xs)
  then show ?case by (cases "x = a") auto
qed

lemma indexOf_nth: "distinct xs \<Longrightarrow> i < length xs \<Longrightarrow> indexOf xs (xs ! i) = Some i"
proof (induction xs arbitrary: i)
  case Nil
  then show ?case by simp
next
  case (Cons x xs)
  then show ?case by (cases i) auto
qed

lemma indexOf_None: "indexOf xs a = None \<longleftrightarrow> a \<notin> set xs"
  by (induction xs) auto

lemma set_zIndex_heap:
  "heap (set_zIndex r v st) = (heap st)(r := (heap st r)\<lparr>el_zIndex := v\<rparr>)"
  by (auto simp add: set_zIndex_def emitChange_def emit_def update_el_def onActionPerformed_def
      Let_def)

lemma set_zIndex_elements: "elements (set_zIndex r v st) = elements st"
  by (simp add: set_zIndex_def emitChange_def emit_def update_el_def onActionPerformed_def Let_def)

lemma set_zIndex_same: "el_zIndex (heap st r) = v \<Longrightarrow> set_zIndex r v st = st"
  by (simp add: set_zIndex_def)

lemma moveForward_heap:
  assumes "indexOf (getSortedByZ st) p = Some j" "j + 1 < length (getSortedByZ st)"
    and "getSortedByZ st ! (j + 1) = q" "p \<noteq> q"
  shows "heap (moveForward p st) = swapped st p q"
    and "elements (moveForward p st) = elements st"
  using assms
  by (auto simp add: moveForward_def Let_def set_zIndex_heap set_zIndex_elements swapped_def
      zOf_def fun_upd_twist)

lemma moveBackward_heap:
  assumes "indexOf (getSortedByZ st) q = Some (j + 1)"
    and "getSortedByZ st ! j = p" "p \<noteq> q"
  shows "heap (moveBackward q st) = swapped st p q"
    and "elements (moveBackward q st) = elements st"
  using assms
  by (auto simp add: moveBackward_def Let_def set_zIndex_heap set_zIndex_elements swapped_def
      zOf_def)

lemma swapped_back:
  assumes "heap st' = swapped st p q" "p \<noteq> q"
  shows "swapped st' q p = heap st"
  using assms by (auto simp add: swapped_def zOf_def fun_eq_iff)

lemma zOf_swapped:
  assumes "heap st' = swapped st p q" "p \<noteq> q"
  shows "zOf st' = (zOf st)(p := zOf st q, q := zOf st p)"
  using assms by (auto simp add: swapped_def zOf_def fun_eq_iff)

lemma sort_key_unique:
  assumes "distinct xs" "inj_on f (set xs)" "set ys = set xs" "distinct ys" "sorted (map f ys)"
  shows "sort_key f xs = ys"
proof -
  let ?S = "sort_key f xs"
  have d: "distinct (map f ?S)" "distinct (map f ys)"
    using assms by (simp_all add: distinct_map)
  have "map f ?S = map f ys"
    using d assms by (intro sorted_distinct_set_unique) simp_all
  then show ?thesis
    using assms by (intro map_inj_on [of f]) simp_all
qed

lemma sorted_after_swap:
  assumes dx: "distinct xs" and inj: "inj_on f (set xs)"
    and j: "j + 1 < length (sort_key f xs)"
    and p: "sort_key f xs ! j = p" and q: "sort_key f xs ! (j + 1) = q"
  shows "sort_key (f(p := f q, q := f p)) xs = (sort_key f xs)[j := q, j + 1 := p]"
    and "inj_on (f(p := f q, q := f p)) (set xs)"
proof -
  let ?S = "sort_key f xs"
  let ?g = "f(p := f q, q := f p)"
  let ?T = "?S[j := q, j + 1 := p]"
  have dS: "distinct ?S" using dx by simp
  have pq: "p \<noteq> q"
    using dS j p q by (metis Suc_eq_plus1 Suc_lessD lessI nth_eq_iff_index_eq not_less_iff_gr_or_eq)
  have mem: "p \<in> set xs" "q \<in> set xs"
    using j p q by (metis Suc_eq_plus1 Suc_lessD nth_mem set_sort, metis nth_mem set_sort)
  show inj': "inj_on ?g (set xs)"
    using inj mem pq unfolding inj_on_def by (auto split: if_splits)
  have T: "?T = ?S[j := ?S ! (j + 1), j + 1 := ?S ! j]"
    using p q by simp
  have setT: "set ?T = set xs"
    unfolding T using j by (simp add: set_swap)
  have dT: "distinct ?T"
    unfolding T using j dS by (simp add: distinct_swap)
  have "map ?g ?T = map f ?S"
  proof (rule nth_equalityI)
    show "length (map ?g ?T) = length (map f ?S)" by simp
  next
    fix k assume "k < length (map ?g ?T)"
    then have k: "k < length ?S" by simp
    consider "k = j" | "k = j + 1" | "k \<noteq> j" "k \<noteq> j + 1" by blast
    then show "map ?g ?T ! k = map f ?S ! k"
    proof cases
      case 1
      with k j p q pq show ?thesis by simp
    next
      case 2
      with k j p q pq show ?thesis by simp
    next
      case 3
      then have "?S ! k \<noteq> p" "?S ! k \<noteq> q"
        using dS k j p q by (metis Suc_eq_plus1 Suc_lessD nth_eq_iff_index_eq)+
      with 3 k show ?thesis by simp
    qed
  qed
  then have "sorted (map ?g ?T)" by simp
  from sort_key_unique [OF dx inj' setT dT this]
  show "sort_key ?g xs = ?T" .
qed


lemma getSortedByZ_cong:
  "heap st' = heap st \<Longrightarrow> elements st' = elements st \<Longrightarrow> getSortedByZ st' = getSortedByZ st"
  by (simp add: getSortedByZ_def getAll_def)

lemma getSortedByZ_zOf: "getSortedByZ st = sort_key (zOf st) (getAll st)"
  by (simp add: getSortedByZ_def zOf_def [abs_def])

lemma swap_step:
  assumes dx: "distinct (getAll st)" and inj: "inj_on (zOf st) (set (getAll st))"
    and j: "j + 1 < length (getSortedByZ st)"
    and p: "getSortedByZ st ! j = p" and q: "getSortedByZ st ! (j + 1) = q"
    and st': "st' = moveForward p st \<or> st' = moveBackward q st"
  shows "heap st' = swapped st p q \<and> elements st' = elements st
       \<and> getSortedByZ st' = (getSortedByZ st)[j := q, j + 1 := p]
       \<and> inj_on (zOf st') (set (getAll st')) \<and> distinct (getAll st') \<and> p \<noteq> q"
proof -
  let ?S = "getSortedByZ st"
  have dS: "distinct ?S" using dx by (simp add: getSortedByZ_def)
  have pq: "p \<noteq> q"
    using dS j p q by (metis Suc_eq_plus1 Suc_lessD lessI nth_eq_iff_index_eq not_less_iff_gr_or_eq)
  have ip: "indexOf ?S p = Some j" and iq: "indexOf ?S q = Some (j + 1)"
    using indexOf_nth [OF dS, of j] indexOf_nth [OF dS, of "j + 1"] j p q by auto
  have he: "heap st' = swapped st p q \<and> elements st' = elements st"
    using st' moveForward_heap [OF ip j q pq] moveBackward_heap [OF iq p pq] by auto
  then have all: "getAll st' = getAll st" by (simp add: getAll_def)
  have z: "zOf st' = (zOf st)(p := zOf st q, q := zOf st p)"
    using zOf_swapped he pq by blast
  have j': "j + 1 < length (sort_key (zOf st) (getAll st))"
    and p': "sort_key (zOf st) (getAll st) ! j = p"
    and q': "sort_key (zOf st) (getAll st) ! (j + 1) = q"
    using j p q by (simp_all add: getSortedByZ_zOf)
  note sw = sorted_after_swap [OF dx inj j' p' q']
  have "getSortedByZ st' = ?S[j := q, j + 1 := p]"
    using sw(1) by (simp add: getSortedByZ_zOf all z)
  moreover have "inj_on (zOf st') (set (getAll st'))"
    using sw(2) by (simp add: all z)
  ultimately show ?thesis using he all dx pq by simp
qed

lemma forward_then_backward:
  assumes dx: "distinct (getAll st)" and inj: "inj_on (zOf st) (set (getAll st))"
    and j: "j + 1 < length (getSortedByZ st)"
    and p: "getSortedByZ st ! j = p" and q: "getSortedByZ st ! (j + 1) = q"
  shows "heap (moveBackward p (moveForward p st)) = heap st"
    and "elements (moveBackward p (moveForward p st)) = elements st"
    and "heap (moveForward q (moveBackward q st)) = heap st"
    and "elements (moveForward q (moveBackward q st)) = elements st"
proof -
  let ?S = "getSortedByZ st"
  {
    fix st1 assume s1: "st1 = moveForward p st \<or> st1 = moveBackward q st"
    note a = swap_step [OF dx inj j p q s1]
    then have S1: "getSortedByZ st1 = ?S[j := q, j + 1 := p]" by blast
    have j1: "j + 1 < length (getSortedByZ st1)" using S1 j by simp
    have p1: "getSortedByZ st1 ! j = q" using S1 j by simp
    have q1: "getSortedByZ st1 ! (j + 1) = p" using S1 j by simp
    have d1: "distinct (getAll st1)" and i1: "inj_on (zOf st1) (set (getAll st1))"
      using a by blast+
    have "heap (moveBackward p st1) = heap st \<and> elements (moveBackward p st1) = elements st
        \<and> heap (moveForward q st1) = heap st \<and> elements (moveForward q st1) = elements st"
      using swap_step [OF d1 i1 j1 p1 q1, of "moveBackward p st1"]
        swap_step [OF d1 i1 j1 p1 q1, of "moveForward q st1"]
        swapped_back [of st1 st p q] a
      by auto
  }
  note both = this
  from both [of "moveForward p st"] both [of "moveBackward q st"]
  show "heap (moveBackward p (moveForward p st)) = heap st"
    and "elements (moveBackward p (moveForward p st)) = elements st"
    and "heap (moveForward q (moveBackward q st)) = heap st"
    and "elements (moveForward q (moveBackward q st)) = elements st"
    by auto
qed


text \<open>
  C8 (amended). In a scene whose elements have pairwise different stacking keys:
  moveForward on an element that is not the last in ascending key order swaps its key with
  its immediate successor's and changes nothing else of any element, so the two exchange
  their places in the order; moveBackward after it restores every element and so the
  original order. moveBackward on an element that is not the first swaps with the
  immediate predecessor, and moveForward after it restores every element. moveForward on
  the last element, moveBackward on the first, and either on an element that is not in the
  scene change nothing at all.
\<close>

theorem zorder_round_trip:
  assumes dx: "distinct (getAll st)" and inj: "inj_on (zOf st) (set (getAll st))"
  shows "(indexOf (getSortedByZ st) r = Some i \<and> i + 1 < length (getSortedByZ st) \<longrightarrow>
            heap (moveForward r st) = swapped st r (getSortedByZ st ! (i + 1))
          \<and> getSortedByZ (moveForward r st)
              = (getSortedByZ st)[i := getSortedByZ st ! (i + 1), i + 1 := r]
          \<and> heap (moveBackward r (moveForward r st)) = heap st
          \<and> getSortedByZ (moveBackward r (moveForward r st)) = getSortedByZ st)
       \<and> (indexOf (getSortedByZ st) r = Some i \<and> 0 < i \<longrightarrow>
            heap (moveBackward r st) = swapped st (getSortedByZ st ! (i - 1)) r
          \<and> getSortedByZ (moveBackward r st)
              = (getSortedByZ st)[i - 1 := r, i := getSortedByZ st ! (i - 1)]
          \<and> heap (moveForward r (moveBackward r st)) = heap st
          \<and> getSortedByZ (moveForward r (moveBackward r st)) = getSortedByZ st)
       \<and> (indexOf (getSortedByZ st) r = Some i \<and> i + 1 = length (getSortedByZ st) \<longrightarrow>
            moveForward r st = st)
       \<and> (indexOf (getSortedByZ st) r = Some 0 \<longrightarrow> moveBackward r st = st)
       \<and> (indexOf (getSortedByZ st) r = None \<longrightarrow> moveForward r st = st \<and> moveBackward r st = st)"
proof -
  let ?S = "getSortedByZ st"
  have fwd: "heap (moveForward r st) = swapped st r (?S ! (i + 1))
          \<and> getSortedByZ (moveForward r st) = ?S[i := ?S ! (i + 1), i + 1 := r]
          \<and> heap (moveBackward r (moveForward r st)) = heap st
          \<and> getSortedByZ (moveBackward r (moveForward r st)) = ?S"
    if a: "indexOf ?S r = Some i" "i + 1 < length ?S"
  proof -
    have p: "?S ! i = r" using indexOf_Some [OF a(1)] by simp
    note s = swap_step [OF dx inj a(2) p refl, of "moveForward r st"]
    note f = forward_then_backward(1,2) [OF dx inj a(2) p refl]
    from s f getSortedByZ_cong [OF f] show ?thesis by simp
  qed
  have bwd: "heap (moveBackward r st) = swapped st (?S ! (i - 1)) r
          \<and> getSortedByZ (moveBackward r st) = ?S[i - 1 := r, i := ?S ! (i - 1)]
          \<and> heap (moveForward r (moveBackward r st)) = heap st
          \<and> getSortedByZ (moveForward r (moveBackward r st)) = ?S"
    if a: "indexOf ?S r = Some i" "0 < i"
  proof -
    have q: "?S ! (i - 1 + 1) = r" and j: "i - 1 + 1 < length ?S"
      using indexOf_Some [OF a(1)] a(2) by simp_all
    note s = swap_step [OF dx inj j refl q, of "moveBackward r st"]
    note f = forward_then_backward(3,4) [OF dx inj j refl q]
    from s f getSortedByZ_cong [OF f] a(2) show ?thesis by simp
  qed
  have top: "moveForward r st = st" if "indexOf ?S r = Some i" "i + 1 = length ?S"
    using that by (simp add: moveForward_def Let_def)
  have bot: "moveBackward r st = st" if "indexOf ?S r = Some 0"
    using that by (simp add: moveBackward_def Let_def)
  have out: "moveForward r st = st \<and> moveBackward r st = st" if "indexOf ?S r = None"
    using that by (simp add: moveForward_def moveBackward_def Let_def)
  from fwd bwd top bot out show ?thesis by blast
qed

lemma stack3_facts:
  "getAll stack3 = [0, 1, 2]"
  "zOf stack3 0 = 0" "zOf stack3 (Suc 0) = 1" "zOf stack3 2 = 2"
  by (simp_all add: stack3_def getAll_def zOf_def scene_defs)

lemma stack3_sorted: "getSortedByZ stack3 = [0, 1, 2]"
  by (simp add: getSortedByZ_zOf stack3_facts)

text \<open>
  Witness of C8: in the stack at keys 0, 1, 2 the middle element moves forward and back,
  and backward and forth; the top element does not move forward nor the bottom one
  backward.
\<close>

theorem zorder_round_trip_witness:
  "getSortedByZ stack3 = [0, 1, 2]
   \<and> getSortedByZ (moveForward 1 stack3) = [0, 2, 1]
   \<and> getSortedByZ (moveBackward 1 (moveForward 1 stack3)) = [0, 1, 2]
   \<and> getSortedByZ (moveBackward 1 stack3) = [1, 0, 2]
   \<and> getSortedByZ (moveForward 1 (moveBackward 1 stack3)) = [0, 1, 2]
   \<and> moveForward 2 stack3 = stack3
   \<and> moveBackward 0 stack3 = stack3"
proof -
  have d: "distinct (getAll stack3)" by (simp add: stack3_facts)
  have i: "inj_on (zOf stack3) (set (getAll stack3))"
    by (simp add: stack3_facts inj_on_def)
  have m: "indexOf (getSortedByZ stack3) 1 = Some 1" "indexOf (getSortedByZ stack3) 2 = Some 2"
    "indexOf (getSortedByZ stack3) 0 = Some 0" "length (getSortedByZ stack3) = 3"
    by (simp_all add: stack3_sorted)
  note t1 = zorder_round_trip [OF d i, of 1 1]
  note t2 = zorder_round_trip [OF d i, of 2 2]
  note t0 = zorder_round_trip [OF d i, of 0 0]
  from t1 m have "getSortedByZ (moveForward 1 stack3) = [0, 2, 1]
      \<and> getSortedByZ (moveBackward 1 (moveForward 1 stack3)) = [0, 1, 2]
      \<and> getSortedByZ (moveBackward 1 stack3) = [1, 0, 2]
      \<and> getSortedByZ (moveForward 1 (moveBackward 1 stack3)) = [0, 1, 2]"
    by (simp add: stack3_sorted)
  moreover from t2 m have "moveForward 2 stack3 = stack3" by simp
  moreover from t0 m have "moveBackward 0 stack3 = stack3" by simp
  ultimately show ?thesis by (simp add: stack3_sorted)
qed

text \<open>
  Counterexample to C8 as stated: on the top element moveForward does nothing and the
  following moveBackward moves it below its neighbour; on the bottom element moveBackward
  does nothing and moveForward moves it up; and with the upper two elements at the same
  key, moveForward on the middle one swaps equal keys and moveBackward then puts it at
  the bottom.
\<close>

theorem zorder_round_trip_counterexample:
  "getSortedByZ stack3 = [0, 1, 2]
   \<and> getSortedByZ (moveBackward 2 (moveForward 2 stack3)) = [0, 2, 1]
   \<and> getSortedByZ (moveForward 0 (moveBackward 0 stack3)) = [1, 0, 2]
   \<and> getSortedByZ tieScene = [0, 1, 2]
   \<and> getSortedByZ (moveBackward 1 (moveForward 1 tieScene)) = [1, 0, 2]"
  by (simp add: stack3_def tieScene_def getSortedByZ_def getAll_def moveForward_def
      moveBackward_def set_zIndex_def emitChange_def onActionPerformed_def scene_defs Let_def)

section \<open>Properties of copy and paste\<close>

lemma update_el_same: "f (heap st r) = heap st r \<Longrightarrow> update_el r f st = st"
  by (simp add: update_el_def)


















text \<open>What copySelected puts on the clipboard, the standard registry can build.\<close>

lemma copySelected_constructible:
  assumes "d \<in> set (clipboard (copySelected st))"
  shows "registered standardRegistry d \<and> constructible standardRegistry d"
proof -
  from assms obtain r where "d = toJSON (heap st r)"
    by (auto simp add: copySelected_def)
  then show ?thesis
    by (cases "el_body (heap st r)")
       (simp_all add: toJSON_def registered_def constructible_def standardRegistry_def)
qed









text \<open>
  C10. With nothing on the clipboard, or with no serializer configured, pasteClipboard
  returns and leaves the whole state as it was: selection, scene, clipboard and the events
  emitted so far.
\<close>

theorem paste_nothing_is_noop:
  assumes "clipboard st = [] \<or> serializationManager st = None"
  shows "pasteClipboard st = Returned st"
  using assms by (auto simp add: pasteClipboard_def)

lemma idle_scene_facts:
  "clipboard copiedScene \<noteq> []" "serializationManager copiedScene = None"
  "selected copiedScene = [0]"
  "clipboard servedScene = []" "serializationManager servedScene \<noteq> None"
  "selected servedScene = [0]"
  by (simp_all add: copiedScene_def servedScene_def copySelected_def pickedScene_def
      addToSelection_def getSelected_def set_add_def scene_defs)

text \<open>
  Witness of C10: a scene with a selection and a clipboard but no serializer, and one with
  a selection and a serializer but an empty clipboard; paste leaves both as they are, the
  selection included.
\<close>

theorem paste_nothing_is_noop_witness:
  "pasteClipboard copiedScene = Returned copiedScene
   \<and> pasteClipboard servedScene = Returned servedScene
   \<and> selected copiedScene = [0] \<and> selected servedScene = [0]
   \<and> clipboard copiedScene \<noteq> [] \<and> serializationManager servedScene \<noteq> None"
  using paste_nothing_is_noop [of copiedScene] paste_nothing_is_noop [of servedScene]
  by (simp add: idle_scene_facts)

end
